theory Spec2Isabelle
  imports Complex_Main
begin

section \<open>JavaScript values used by DatePickerDialog.tsx\<close>

text \<open>
  A \<open>Date\<close> object is modelled by its local calendar fields, named after the
  accessors the component calls, plus the local time of day in milliseconds.
  \<open>getMonth\<close> is zero based, as in JavaScript. Invalid dates (NaN time values),
  time-zone transitions and years beyond the range of time values are outside the
  model.
\<close>

record jsdate =
  getFullYear :: int
  getMonth :: int
  getDate :: int
  msOfDay :: int

text \<open>
  A state variable typed \<open>number\<close> can hold \<open>undefined\<close> at run time (the result of
  reading an array out of range), so such values are \<open>int option\<close> with \<open>None\<close> for
  \<open>undefined\<close> (and for NaN inside \<open>buildDayList\<close>).
\<close>

type_synonym jsnum = "int option"

text \<open>
  Relational operators on Dates compare time values. For valid Dates read in one time
  zone the later time value is the one whose fields are greater, read from the year
  down to the time of day.
\<close>

definition date_less :: "jsdate \<Rightarrow> jsdate \<Rightarrow> bool" where
  "date_less a b \<longleftrightarrow>
     getFullYear a < getFullYear b \<or>
     (getFullYear a = getFullYear b \<and>
       (getMonth a < getMonth b \<or>
        (getMonth a = getMonth b \<and>
          (getDate a < getDate b \<or>
           (getDate a = getDate b \<and> msOfDay a < msOfDay b)))))"

definition date_greater :: "jsdate \<Rightarrow> jsdate \<Rightarrow> bool" where
  "date_greater a b = date_less b a"

text \<open>\<open>a > b\<close> and \<open>a < b\<close> on numbers that may be \<open>undefined\<close>: false then.\<close>

definition js_greater :: "jsnum \<Rightarrow> jsnum \<Rightarrow> bool" where
  "js_greater a b = (case a of None \<Rightarrow> False
     | Some x \<Rightarrow> (case b of None \<Rightarrow> False | Some y \<Rightarrow> y < x))"

definition js_less :: "jsnum \<Rightarrow> jsnum \<Rightarrow> bool" where
  "js_less a b = (case a of None \<Rightarrow> False
     | Some x \<Rightarrow> (case b of None \<Rightarrow> False | Some y \<Rightarrow> x < y))"

text \<open>\<open>values[i]\<close>: \<open>undefined\<close> outside \<open>0 .. length - 1\<close>, never an exception.\<close>

definition js_index :: "int list \<Rightarrow> int \<Rightarrow> jsnum" where
  "js_index xs i = (if 0 \<le> i \<and> i < int (length xs) then Some (xs ! nat i) else None)"

text \<open>\<open>values.includes(v)\<close> on an array of numbers.\<close>

definition js_includes :: "int list \<Rightarrow> jsnum \<Rightarrow> bool" where
  "js_includes xs v = (case v of None \<Rightarrow> False | Some x \<Rightarrow> x \<in> set xs)"

text \<open>\<open>Array.from({ length: len }, (_, i) => f(i))\<close>: a non-positive length gives \<open>[]\<close>.\<close>

definition arrayFrom :: "int \<Rightarrow> (int \<Rightarrow> int) \<Rightarrow> int list" where
  "arrayFrom len f = map (\<lambda>i. f (int i)) [0..<nat len]"

subsection \<open>The calendar behind \<open>new Date(year, month, day)\<close>\<close>

definition leapYear :: "int \<Rightarrow> bool" where
  "leapYear y \<longleftrightarrow> y mod 4 = 0 \<and> (y mod 100 \<noteq> 0 \<or> y mod 400 = 0)"

text \<open>The true (proleptic Gregorian) length of month \<open>m\<close> (1 to 12) of year \<open>y\<close>.\<close>

definition daysInMonth :: "int \<Rightarrow> int \<Rightarrow> int" where
  "daysInMonth y m =
     (if m = 2 then (if leapYear y then 29 else 28)
      else if m = 4 \<or> m = 6 \<or> m = 9 \<or> m = 11 then 30 else 31)"

text \<open>
  The multi-argument \<open>Date\<close> constructor reads a year from 0 to 99 as 1900 + year.
\<close>

definition legacyYear :: "int \<Rightarrow> bool" where
  "legacyYear y \<longleftrightarrow> 0 \<le> y \<and> y \<le> 99"

definition constructorYear :: "int \<Rightarrow> int" where
  "constructorYear y = (if legacyYear y then 1900 + y else y)"

text \<open>
  \<open>new Date(year, monthIndex, day)\<close> on numbers: the month index is carried into the
  year, and a day outside the month is carried into the neighbouring months, one month
  at a time. The result is at local midnight.
\<close>

function normalizeDate :: "int \<Rightarrow> int \<Rightarrow> int \<Rightarrow> int \<times> int \<times> int" where
  "normalizeDate y m d =
     (if d < 1 then
        (if m = 0 then normalizeDate (y - 1) 11 (d + daysInMonth (y - 1) 12)
         else normalizeDate y (m - 1) (d + daysInMonth y m))
      else if daysInMonth y (m + 1) < d then
        (if m = 11 then normalizeDate (y + 1) 0 (d - daysInMonth y 12)
         else normalizeDate y (m + 1) (d - daysInMonth y (m + 1)))
      else (y, m, d))"
  by pat_completeness auto
termination
  by (relation "measure (\<lambda>(y, m, d).
        if d < 1 then nat (1 - d) + 32
        else if daysInMonth y (m + 1) < d then nat d else 0)")
     (auto simp add: daysInMonth_def)

declare normalizeDate.simps [simp del]

definition makeDate :: "int \<Rightarrow> int \<Rightarrow> int \<Rightarrow> jsdate" where
  "makeDate year monthIndex day =
     (case normalizeDate (constructorYear year + monthIndex div 12) (monthIndex mod 12) day of
        (y, m, d) \<Rightarrow> \<lparr>getFullYear = y, getMonth = m, getDate = d, msOfDay = 0\<rparr>)"

text \<open>
  A Date holds time values up to 100,000,000 days either side of 1970, so every day of
  the years -271820 to 275759 has one. For a year beyond them the constructor gives an
  Invalid Date, which \<open>makeDate\<close> does not produce: the properties below are stated for
  Dates of representable years.
\<close>

definition representableYear :: "int \<Rightarrow> bool" where
  "representableYear y \<longleftrightarrow> - 271820 \<le> y \<and> y \<le> 275759"

text \<open>\<open>new Date(year, month, 0).getDate()\<close>, the \<open>totalDays\<close> of \<open>buildDayList\<close>.\<close>

definition lastDateOfMonth :: "int \<Rightarrow> int \<Rightarrow> int" where
  "lastDateOfMonth year month = getDate (makeDate year month 0)"

section \<open>RangeCalculator: buildYearList, buildMonthList, buildDayList\<close>

definition buildYearList :: "jsdate \<Rightarrow> jsdate \<Rightarrow> int list" where
  "buildYearList minDate effectiveMaxDate =
     (let start = getFullYear minDate;
          endYear = getFullYear effectiveMaxDate
      in arrayFrom (endYear - start + 1) (\<lambda>i. start + i))"

definition buildMonthList :: "jsdate \<Rightarrow> jsdate \<Rightarrow> jsnum \<Rightarrow> int list" where
  "buildMonthList minDate effectiveMaxDate year =
     (let minMonth = (if year = Some (getFullYear minDate) then getMonth minDate + 1 else 1)
      in if year = Some (getFullYear effectiveMaxDate)
         then arrayFrom (getMonth effectiveMaxDate + 1 - minMonth + 1) (\<lambda>i. minMonth + i)
         else if js_greater year (Some (getFullYear effectiveMaxDate)) then []
         else arrayFrom (12 - minMonth + 1) (\<lambda>i. minMonth + i))"

definition buildDayList :: "jsdate \<Rightarrow> jsdate \<Rightarrow> jsnum \<Rightarrow> jsnum \<Rightarrow> int list" where
  "buildDayList minDate effectiveMaxDate year month =
     (let totalDays = (case year of None \<Rightarrow> None
            | Some y \<Rightarrow> (case month of None \<Rightarrow> None | Some m \<Rightarrow> Some (lastDateOfMonth y m)));
          minDay = (if year = Some (getFullYear minDate) \<and> month = Some (getMonth minDate + 1)
                    then getDate minDate else 1)
      in if year = Some (getFullYear effectiveMaxDate) \<and>
            month = Some (getMonth effectiveMaxDate + 1)
         then arrayFrom (getDate effectiveMaxDate - minDay + 1) (\<lambda>i. minDay + i)
         else if js_greater year (Some (getFullYear effectiveMaxDate)) \<or>
                 (year = Some (getFullYear effectiveMaxDate) \<and>
                  js_greater month (Some (getMonth effectiveMaxDate + 1)))
         then []
         else (case totalDays of None \<Rightarrow> []
               | Some maxDay \<Rightarrow> arrayFrom (maxDay - minDay + 1) (\<lambda>i. minDay + i)))"

section \<open>Component inputs: today, effectiveMaxDate, minDate\<close>

text \<open>\<open>date.setHours(0, 0, 0, 0)\<close>: the same local day at midnight.\<close>

definition setHoursZero :: "jsdate \<Rightarrow> jsdate" where
  "setHoursZero d = d\<lparr>msOfDay := 0\<rparr>"

text \<open>\<open>today\<close>: \<open>new Date()\<close> (the argument \<open>now\<close>) with the time set to zero.\<close>

definition today :: "jsdate \<Rightarrow> jsdate" where
  "today now = setHoursZero now"

definition effectiveMaxDate :: "jsdate \<Rightarrow> jsdate option \<Rightarrow> jsdate" where
  "effectiveMaxDate now maxDate =
     (case maxDate of
        Some d \<Rightarrow>
          (let maxDateCopy = setHoursZero d
           in if date_greater maxDateCopy (today now) then today now else maxDateCopy)
      | None \<Rightarrow> today now)"

text \<open>The default of the \<open>minDate\<close> prop: \<open>new Date(1945, 0, 1)\<close>.\<close>

definition defaultMinDate :: jsdate where
  "defaultMinDate = \<lparr>getFullYear = 1945, getMonth = 0, getDate = 1, msOfDay = 0\<rparr>"

definition minDateOf :: "jsdate option \<Rightarrow> jsdate" where
  "minDateOf minDateProp = (case minDateProp of Some d \<Rightarrow> d | None \<Rightarrow> defaultMinDate)"

section \<open>AlignmentEngine and ScrollEventInterpreter: offsets and indices\<close>

definition ITEM_HEIGHT :: real where
  "ITEM_HEIGHT = 46"

definition VISIBLE_ITEM_COUNT :: real where
  "VISIBLE_ITEM_COUNT = 5"

definition PADDING :: real where
  "PADDING = ITEM_HEIGHT * 2"

text \<open>\<open>Math.max(0, Math.min(index, values.length - 1))\<close>.\<close>

definition clampIndex :: "int list \<Rightarrow> int \<Rightarrow> int" where
  "clampIndex values index = max 0 (min index (int (length values) - 1))"

text \<open>\<open>Math.round\<close>: the nearest integer, halves rounded up.\<close>

definition js_round :: "real \<Rightarrow> int" where
  "js_round x = \<lfloor>x + 1 / 2\<rfloor>"

text \<open>
  \<open>scrollToIndex\<close>: the clamped index it stores as \<open>centerIndex\<close> and the \<open>y\<close> it
  passes to \<open>ref.scrollTo\<close>.
\<close>

definition scrollToIndex :: "int list \<Rightarrow> int \<Rightarrow> int \<times> real" where
  "scrollToIndex values index =
     (let clampedIndex = clampIndex values index;
          centerIndex = (VISIBLE_ITEM_COUNT - 1) / 2;
          targetOffset = (real_of_int clampedIndex - centerIndex) * ITEM_HEIGHT + PADDING
      in (clampedIndex, max 0 targetOffset))"

text \<open>
  \<open>handleScroll\<close>: the index it derives from \<open>event.nativeEvent.contentOffset.y\<close> when
  the column is not auto-scrolling.
\<close>

definition handleScroll :: "int list \<Rightarrow> real \<Rightarrow> int" where
  "handleScroll values offsetY =
     (let centerOffset = offsetY + (ITEM_HEIGHT * (VISIBLE_ITEM_COUNT - 1) / 2) - PADDING;
          newIndex = js_round (centerOffset / ITEM_HEIGHT)
      in clampIndex values newIndex)"

section \<open>DialogController: seeding the selection when the dialog opens\<close>

text \<open>
  The body of the initialization effect up to the three \<open>setSelected...\<close> calls: the
  result is \<open>(clampedYear, clampedMonth, clampedDay)\<close>.
\<close>

definition initializeSelection ::
  "jsdate \<Rightarrow> jsdate \<Rightarrow> jsdate \<Rightarrow> jsdate option \<Rightarrow> int \<times> int \<times> int" where
  "initializeSelection minDate effMaxDate todayDate initialDate =
     (let dateToUse = (case initialDate of Some d \<Rightarrow> d | None \<Rightarrow> todayDate);
          clampedDate = (if date_greater dateToUse effMaxDate then effMaxDate else dateToUse);
          finalDate = (if date_less clampedDate minDate then minDate else clampedDate);
          year = getFullYear finalDate;
          month = getMonth finalDate + 1;
          day = getDate finalDate;
          clampedYear = max (getFullYear minDate) (min year (getFullYear effMaxDate));
          availableMonths = buildMonthList minDate effMaxDate (Some clampedYear);
          clampedMonth =
            (if 0 < length availableMonths \<and> js_includes availableMonths (Some month)
             then month
             else if 0 < length availableMonths then availableMonths ! 0 else 1);
          availableDays = buildDayList minDate effMaxDate (Some clampedYear) (Some clampedMonth);
          clampedDay =
            (if 0 < length availableDays \<and> js_includes availableDays (Some day) then day
             else if 0 < length availableDays then
               (if availableDays ! (length availableDays - 1) < day
                then availableDays ! (length availableDays - 1)
                else if day < availableDays ! 0 then availableDays ! 0
                else availableDays ! 0)
             else 1)
      in (clampedYear, clampedMonth, clampedDay))"

section \<open>SelectionCoordinator: the selection state and its reactions\<close>

text \<open>
  The selection state of the component. \<open>yearChanged\<close> and \<open>monthChanged\<close> record that
  \<open>selectedYear\<close> or \<open>selectedMonth\<close> differs from the value the sync effects last saw
  in their dependency arrays, so that the effects are due after the next render.
  Scroll positions, timers and the per-column \<open>centerIndex\<close> are not part of it.
\<close>

record picker =
  selectedYear :: jsnum
  selectedMonth :: jsnum
  selectedDay :: jsnum
  isInitializing :: bool
  visible :: bool
  yearChanged :: bool
  monthChanged :: bool

datatype column = YearColumn | MonthColumn | DayColumn

text \<open>The values a column shows for the current selection.\<close>

definition columnValues :: "jsdate \<Rightarrow> jsdate \<Rightarrow> column \<Rightarrow> picker \<Rightarrow> int list" where
  "columnValues minDate effMaxDate col st =
     (case col of
        YearColumn \<Rightarrow> buildYearList minDate effMaxDate
      | MonthColumn \<Rightarrow> buildMonthList minDate effMaxDate (selectedYear st)
      | DayColumn \<Rightarrow> buildDayList minDate effMaxDate (selectedYear st) (selectedMonth st))"

definition applySelectionFromIndex ::
  "jsdate \<Rightarrow> jsdate \<Rightarrow> column \<Rightarrow> int \<Rightarrow> picker \<Rightarrow> picker" where
  "applySelectionFromIndex minDate effMaxDate col index st =
     (let values = columnValues minDate effMaxDate col st;
          clampedIndex = clampIndex values index
      in case col of
           YearColumn \<Rightarrow>
             (let year = js_index values clampedIndex
              in if year \<noteq> selectedYear st
                 then st\<lparr>selectedYear := year, yearChanged := True\<rparr> else st)
         | MonthColumn \<Rightarrow>
             (let month = js_index values clampedIndex
              in if month \<noteq> selectedMonth st
                 then st\<lparr>selectedMonth := month, monthChanged := True\<rparr> else st)
         | DayColumn \<Rightarrow>
             (let day = js_index values clampedIndex
              in if day \<noteq> selectedDay st then st\<lparr>selectedDay := day\<rparr> else st))"

text \<open>
  \<open>handleItemPress\<close>, as far as the selection goes: clamp the index, apply it. The
  callback is memoised on \<open>selectedYear\<close> and \<open>selectedMonth\<close>, so for the year and month
  columns it compares with the current selection, as written here. For the day column
  it compares with the \<open>selectedDay\<close> of the render that created it:
  \<open>handleItemPressDay\<close> below.
\<close>

definition handleItemPress ::
  "jsdate \<Rightarrow> jsdate \<Rightarrow> column \<Rightarrow> int \<Rightarrow> picker \<Rightarrow> picker" where
  "handleItemPress minDate effMaxDate col index st =
     (let values = columnValues minDate effMaxDate col st;
          clampedIndex = clampIndex values index
      in applySelectionFromIndex minDate effMaxDate col clampedIndex st)"

text \<open>
  A tap on a day item. \<open>capturedDay\<close> is the \<open>selectedDay\<close> that the memoised
  \<open>handleItemPress\<close> closed over, in the render where \<open>selectedYear\<close> or \<open>selectedMonth\<close>
  last changed; the tapped day is stored unless it equals that value, and storing the
  day already selected changes nothing.
\<close>

definition handleItemPressDay ::
  "jsdate \<Rightarrow> jsdate \<Rightarrow> jsnum \<Rightarrow> int \<Rightarrow> picker \<Rightarrow> picker" where
  "handleItemPressDay minDate effMaxDate capturedDay index st =
     (let values = columnValues minDate effMaxDate DayColumn st;
          clampedIndex = clampIndex values (clampIndex values index);
          day = js_index values clampedIndex
      in if day \<noteq> capturedDay then st\<lparr>selectedDay := day\<rparr> else st)"

text \<open>
  The month sync effect, run against the state of one render: \<open>Some v\<close> is the call
  \<open>setSelectedMonth(v)\<close>, \<open>None\<close> is no call.
\<close>

definition monthSyncEffect :: "jsdate \<Rightarrow> jsdate \<Rightarrow> picker \<Rightarrow> jsnum option" where
  "monthSyncEffect minDate effMaxDate st =
     (if \<not> visible st then None
      else if isInitializing st then None
      else
        (let availableMonths = buildMonthList minDate effMaxDate (selectedYear st)
         in if \<not> js_includes availableMonths (selectedMonth st)
            then Some (js_index availableMonths 0)
            else None))"

text \<open>The day sync effect: \<open>Some v\<close> is the call \<open>setSelectedDay(v)\<close>.\<close>

definition daySyncEffect :: "jsdate \<Rightarrow> jsdate \<Rightarrow> picker \<Rightarrow> jsnum option" where
  "daySyncEffect minDate effMaxDate st =
     (if \<not> visible st then None
      else if isInitializing st then None
      else
        (let availableDays =
               buildDayList minDate effMaxDate (selectedYear st) (selectedMonth st)
         in if \<not> js_includes availableDays (selectedDay st)
            then Some
              (if js_greater (selectedDay st)
                    (js_index availableDays (int (length availableDays) - 1))
               then js_index availableDays (int (length availableDays) - 1)
               else if js_less (selectedDay st) (js_index availableDays 0)
               then js_index availableDays 0
               else js_index availableDays 0)
            else None))"

text \<open>
  One pass of effects after a render, for a \<open>minDate\<close> that the parent passes as a prop
  and props that keep their identity while the dialog is open: \<open>buildMonthList\<close> and
  \<open>buildDayList\<close> are then the same functions in every render, and the initialization
  effect does not run again. Both sync effects read the state of that render; the
  month effect runs when \<open>selectedYear\<close> changed, the day effect when \<open>selectedYear\<close> or
  \<open>selectedMonth\<close> changed. Their state updates are applied together afterwards. The
  pass for an omitted \<open>minDate\<close> is \<open>effectPass\<close> below.
\<close>

definition flushEffects :: "jsdate \<Rightarrow> jsdate \<Rightarrow> picker \<Rightarrow> picker" where
  "flushEffects minDate effMaxDate st =
     (let monthCall = (if yearChanged st then monthSyncEffect minDate effMaxDate st else None);
          dayCall = (if yearChanged st \<or> monthChanged st
                     then daySyncEffect minDate effMaxDate st else None);
          newMonth = (case monthCall of Some v \<Rightarrow> v | None \<Rightarrow> selectedMonth st);
          newDay = (case dayCall of Some v \<Rightarrow> v | None \<Rightarrow> selectedDay st)
      in st\<lparr>selectedMonth := newMonth, selectedDay := newDay,
            yearChanged := False, monthChanged := (newMonth \<noteq> selectedMonth st)\<rparr>)"

text \<open>Renders and effect passes repeat until no dependency has changed.\<close>

fun settle :: "nat \<Rightarrow> jsdate \<Rightarrow> jsdate \<Rightarrow> picker \<Rightarrow> picker option" where
  "settle 0 minDate effMaxDate st = None"
| "settle (Suc n) minDate effMaxDate st =
     (if yearChanged st \<or> monthChanged st
      then settle n minDate effMaxDate (flushEffects minDate effMaxDate st)
      else Some st)"

text \<open>The state created by the \<open>useState\<close> calls when the component mounts.\<close>

definition mountState :: "jsdate \<Rightarrow> picker" where
  "mountState todayDate =
     \<lparr>selectedYear = Some (getFullYear todayDate),
      selectedMonth = Some (getMonth todayDate + 1),
      selectedDay = Some (getDate todayDate),
      isInitializing = False, visible = False,
      yearChanged = False, monthChanged = False\<rparr>"

text \<open>
  The dialog becomes visible: the initialization effect sets the latch and seeds the
  selection; the sync effects that follow return early because of the latch.
\<close>

definition openDialog ::
  "jsdate \<Rightarrow> jsdate \<Rightarrow> jsdate \<Rightarrow> jsdate option \<Rightarrow> picker \<Rightarrow> picker" where
  "openDialog minDate effMaxDate todayDate initialDate st =
     (case initializeSelection minDate effMaxDate todayDate initialDate of
        (clampedYear, clampedMonth, clampedDay) \<Rightarrow>
          st\<lparr>selectedYear := Some clampedYear, selectedMonth := Some clampedMonth,
             selectedDay := Some clampedDay, isInitializing := True, visible := True,
             yearChanged := False, monthChanged := False\<rparr>)"

text \<open>
  The props the selection depends on, as the parent passes them; \<open>None\<close> is an omitted
  prop.
\<close>

record dialogProps =
  initialDateProp :: "jsdate option"
  minDateProp :: "jsdate option"
  maxDateProp :: "jsdate option"

text \<open>
  The effects that run after a render of the visible dialog. With \<open>minDate\<close> passed as a
  prop they are the two sync effects. With \<open>minDate\<close> omitted the default parameter
  \<open>new Date(1945, 0, 1)\<close> is a new object in every render, so \<open>buildMonthList\<close> and
  \<open>buildDayList\<close> are new functions and the initialization effect runs again after every
  render: it sets the latch and seeds the selection anew, and the sync effects return
  at the latch.
\<close>

definition effectPass :: "jsdate \<Rightarrow> dialogProps \<Rightarrow> picker \<Rightarrow> picker" where
  "effectPass now props st =
     (case minDateProp props of
        Some minDate \<Rightarrow> flushEffects minDate (effectiveMaxDate now (maxDateProp props)) st
      | None \<Rightarrow>
          openDialog defaultMinDate (effectiveMaxDate now (maxDateProp props)) (today now)
            (initialDateProp props) st)"

definition selectionOf :: "picker \<Rightarrow> jsnum \<times> jsnum \<times> jsnum" where
  "selectionOf st = (selectedYear st, selectedMonth st, selectedDay st)"

text \<open>The state one opening of the dialog starts in, for the props of that opening.\<close>

definition seededState :: "jsdate \<Rightarrow> dialogProps \<Rightarrow> picker" where
  "seededState now props =
     openDialog (minDateOf (minDateProp props)) (effectiveMaxDate now (maxDateProp props))
       (today now) (initialDateProp props) (mountState (today now))"

text \<open>
  The states the selection goes through during one opening of the dialog, each with
  the flag \<open>due\<close>: a state update has been made and its render and effect pass are still
  to come. A user event is handled only when nothing is due; a render is due after a
  step exactly when the step changed a selected value.
  \<^item> \<open>opened\<close>: the dialog becomes visible and the selection is seeded.
  \<^item> \<open>initialized\<close>: the timers of the initialization effect release the latch.
  \<^item> \<open>pressed\<close>: a tap on an item of the year or month column.
  \<^item> \<open>dayPressed\<close>: a tap on an item of the day column, for any value the memoised
    callback may have captured.
  \<^item> \<open>scrolled\<close>: a scroll event whose offset selects an index.
  \<^item> \<open>passed\<close>: the render that is due and the effects after it.
  The first parameter says whether user events are also taken while the latch of the
  initialization window is set; with \<open>minDate\<close> omitted they always are.
\<close>

inductive reachable :: "bool \<Rightarrow> jsdate \<Rightarrow> dialogProps \<Rightarrow> picker \<Rightarrow> bool \<Rightarrow> bool"
  for duringInit now props where
  opened:
    "reachable duringInit now props
       (openDialog (minDateOf (minDateProp props)) (effectiveMaxDate now (maxDateProp props))
          (today now) (initialDateProp props) (mountState (today now)))
       False"
| initialized:
    "reachable duringInit now props st due
     \<Longrightarrow> reachable duringInit now props (st\<lparr>isInitializing := False\<rparr>) due"
| pressed:
    "reachable duringInit now props st False
     \<Longrightarrow> duringInit \<or> minDateProp props = None \<or> \<not> isInitializing st
     \<Longrightarrow> col \<noteq> DayColumn
     \<Longrightarrow> 0 \<le> index
     \<Longrightarrow> index < int (length (columnValues (minDateOf (minDateProp props))
                    (effectiveMaxDate now (maxDateProp props)) col st))
     \<Longrightarrow> st' = handleItemPress (minDateOf (minDateProp props))
                  (effectiveMaxDate now (maxDateProp props)) col index st
     \<Longrightarrow> reachable duringInit now props st' (selectionOf st' \<noteq> selectionOf st)"
| dayPressed:
    "reachable duringInit now props st False
     \<Longrightarrow> duringInit \<or> minDateProp props = None \<or> \<not> isInitializing st
     \<Longrightarrow> 0 \<le> index
     \<Longrightarrow> index < int (length (columnValues (minDateOf (minDateProp props))
                    (effectiveMaxDate now (maxDateProp props)) DayColumn st))
     \<Longrightarrow> st' = handleItemPressDay (minDateOf (minDateProp props))
                  (effectiveMaxDate now (maxDateProp props)) capturedDay index st
     \<Longrightarrow> reachable duringInit now props st' (selectionOf st' \<noteq> selectionOf st)"
| scrolled:
    "reachable duringInit now props st False
     \<Longrightarrow> duringInit \<or> minDateProp props = None \<or> \<not> isInitializing st
     \<Longrightarrow> st' = applySelectionFromIndex (minDateOf (minDateProp props))
                  (effectiveMaxDate now (maxDateProp props)) col
                  (handleScroll (columnValues (minDateOf (minDateProp props))
                     (effectiveMaxDate now (maxDateProp props)) col st) offsetY) st
     \<Longrightarrow> reachable duringInit now props st' (selectionOf st' \<noteq> selectionOf st)"
| passed:
    "reachable duringInit now props st True
     \<Longrightarrow> st' = effectPass now props st
     \<Longrightarrow> reachable duringInit now props st' (selectionOf st' \<noteq> selectionOf st)"

text \<open>
  The invariant the data model states for the selected date: it lies between \<open>minDate\<close>
  and \<open>effectiveMaxDate\<close> as a calendar date, and the day exists in its month.
\<close>

definition calendarLe :: "int \<times> int \<times> int \<Rightarrow> int \<times> int \<times> int \<Rightarrow> bool" where
  "calendarLe a b =
     (case a of (y1, m1, d1) \<Rightarrow> (case b of (y2, m2, d2) \<Rightarrow>
        y1 < y2 \<or> (y1 = y2 \<and> (m1 < m2 \<or> (m1 = m2 \<and> d1 \<le> d2)))))"

definition calendarDate :: "jsdate \<Rightarrow> int \<times> int \<times> int" where
  "calendarDate d = (getFullYear d, getMonth d + 1, getDate d)"

definition selectedDateValid :: "jsdate \<Rightarrow> jsdate \<Rightarrow> picker \<Rightarrow> bool" where
  "selectedDateValid minDate effMaxDate st =
     (case selectedYear st of None \<Rightarrow> False | Some y \<Rightarrow>
      (case selectedMonth st of None \<Rightarrow> False | Some m \<Rightarrow>
       (case selectedDay st of None \<Rightarrow> False | Some d \<Rightarrow>
          calendarLe (calendarDate minDate) (y, m, d) \<and>
          calendarLe (y, m, d) (calendarDate effMaxDate) \<and>
          1 \<le> m \<and> m \<le> 12 \<and> 1 \<le> d \<and> d \<le> daysInMonth y m)))"

section \<open>Confirm, cancel and dismiss\<close>

text \<open>With an \<open>undefined\<close> argument the constructor gives an Invalid Date: \<open>None\<close>.\<close>

definition newDate :: "jsnum \<Rightarrow> jsnum \<Rightarrow> jsnum \<Rightarrow> jsdate option" where
  "newDate year monthIndex day =
     (case year of None \<Rightarrow> None | Some y \<Rightarrow>
      (case monthIndex of None \<Rightarrow> None | Some m \<Rightarrow>
       (case day of None \<Rightarrow> None | Some d \<Rightarrow> Some (makeDate y m d))))"

text \<open>The callbacks are optional props; each call made is recorded in order.\<close>

record callbacks =
  onConfirm :: bool
  onCancel :: bool
  onDismiss :: bool

datatype event = ConfirmCalled "jsdate option" | CancelCalled | DismissCalled

definition handleDismiss :: "callbacks \<Rightarrow> event list" where
  "handleDismiss cb = (if onDismiss cb then [DismissCalled] else [])"

definition handleConfirm :: "callbacks \<Rightarrow> picker \<Rightarrow> event list" where
  "handleConfirm cb st =
     (let date = newDate (selectedYear st) (map_option (\<lambda>m. m - 1) (selectedMonth st))
                   (selectedDay st)
      in (if onConfirm cb then [ConfirmCalled date] else []) @ handleDismiss cb)"

definition handleCancel :: "callbacks \<Rightarrow> event list" where
  "handleCancel cb = (if onCancel cb then [CancelCalled] else []) @ handleDismiss cb"

text \<open>
  The component never changes \<open>visible\<close>: it is a prop, and none of the three handlers
  stores anything. So one opening of the dialog, from the parent setting \<open>visible\<close> to
  the parent clearing it, holds as many presses as the user makes while the parent
  keeps the dialog visible. \<open>PressConfirm\<close> is the confirm button; \<open>PressCancel\<close> is the
  cancel button, a tap outside the sheet or the hardware back button, which all run
  \<open>handleCancel\<close>. Each press comes with the selection state it is made in.
\<close>

datatype press = PressConfirm | PressCancel

definition pressEvents :: "callbacks \<Rightarrow> press \<times> picker \<Rightarrow> event list" where
  "pressEvents cb ps =
     (case ps of
        (PressConfirm, st) \<Rightarrow> handleConfirm cb st
      | (PressCancel, st) \<Rightarrow> handleCancel cb)"

definition cycleEvents :: "callbacks \<Rightarrow> (press \<times> picker) list \<Rightarrow> event list" where
  "cycleEvents cb presses = concat (map (pressEvents cb) presses)"

section \<open>Predicates used to state the properties\<close>

text \<open>
  A valid Date object: a representable year, month index 0 to 11, a day that exists in
  the month, a time of day within the day.
\<close>

definition validDate :: "jsdate \<Rightarrow> bool" where
  "validDate d \<longleftrightarrow>
     representableYear (getFullYear d) \<and>
     0 \<le> getMonth d \<and> getMonth d \<le> 11 \<and>
     1 \<le> getDate d \<and> getDate d \<le> daysInMonth (getFullYear d) (getMonth d + 1) \<and>
     0 \<le> msOfDay d \<and> msOfDay d < 86400000"

text \<open>
  Bounds that form a range: both valid, \<open>minDate\<close> not after \<open>effectiveMaxDate\<close> as a
  calendar date, and the day of \<open>minDate\<close> not beyond the last day that
  \<open>new Date(year, month, 0)\<close> gives for its month. The last condition fails for one valid
  Date only, 0000-02-29: the constructor reads year 0 as 1900, whose February has 28
  days.
\<close>

definition validBounds :: "jsdate \<Rightarrow> jsdate \<Rightarrow> bool" where
  "validBounds minDate effMaxDate \<longleftrightarrow>
     validDate minDate \<and> validDate effMaxDate \<and>
     calendarLe (calendarDate minDate) (calendarDate effMaxDate) \<and>
     getDate minDate \<le> lastDateOfMonth (getFullYear minDate) (getMonth minDate + 1)"

text \<open>Each selected value is an entry of the list its column shows.\<close>

definition selectionInLists :: "jsdate \<Rightarrow> jsdate \<Rightarrow> picker \<Rightarrow> bool" where
  "selectionInLists minDate effMaxDate st \<longleftrightarrow>
     js_includes (buildYearList minDate effMaxDate) (selectedYear st) \<and>
     js_includes (buildMonthList minDate effMaxDate (selectedYear st)) (selectedMonth st) \<and>
     js_includes (buildDayList minDate effMaxDate (selectedYear st) (selectedMonth st))
       (selectedDay st)"

text \<open>The Idle state with no effect due: visible, initialized, nothing changed.\<close>

definition idleSettled :: "picker \<Rightarrow> bool" where
  "idleSettled st \<longleftrightarrow>
     visible st \<and> \<not> isInitializing st \<and> \<not> yearChanged st \<and> \<not> monthChanged st"


section \<open>Example inputs\<close>

text \<open>The scenarios of the specification: today is 2024-06-15.\<close>

definition exampleToday :: jsdate where
  "exampleToday = \<lparr>getFullYear = 2024, getMonth = 5, getDate = 15, msOfDay = 0\<rparr>"

definition exampleMaxDate :: jsdate where
  "exampleMaxDate = \<lparr>getFullYear = 2025, getMonth = 11, getDate = 31, msOfDay = 0\<rparr>"

definition examplePastDate :: jsdate where
  "examplePastDate = \<lparr>getFullYear = 2023, getMonth = 1, getDate = 28, msOfDay = 43200000\<rparr>"

definition exampleLateDate :: jsdate where
  "exampleLateDate = \<lparr>getFullYear = 2024, getMonth = 5, getDate = 20, msOfDay = 0\<rparr>"

definition exampleEarlyDate :: jsdate where
  "exampleEarlyDate = \<lparr>getFullYear = 1944, getMonth = 4, getDate = 1, msOfDay = 0\<rparr>"

definition exampleLeapDay :: jsdate where
  "exampleLeapDay = \<lparr>getFullYear = 2024, getMonth = 1, getDate = 29, msOfDay = 0\<rparr>"

definition exampleLaterMinDate :: jsdate where
  "exampleLaterMinDate = \<lparr>getFullYear = 2024, getMonth = 8, getDate = 1, msOfDay = 0\<rparr>"

definition allCallbacks :: callbacks where
  "allCallbacks = \<lparr>onConfirm = True, onCancel = True, onDismiss = True\<rparr>"

definition exampleConfirmState :: picker where
  "exampleConfirmState =
     \<lparr>selectedYear = Some 2023, selectedMonth = Some 2, selectedDay = Some 28,
      isInitializing = False, visible = True, yearChanged = False, monthChanged = False\<rparr>"

definition exampleDecemberState :: picker where
  "exampleDecemberState =
     \<lparr>selectedYear = Some 2023, selectedMonth = Some 12, selectedDay = Some 25,
      isInitializing = False, visible = True, yearChanged = False, monthChanged = False\<rparr>"

definition exampleLeapState :: picker where
  "exampleLeapState =
     \<lparr>selectedYear = Some 2024, selectedMonth = Some 2, selectedDay = Some 29,
      isInitializing = False, visible = True, yearChanged = False, monthChanged = False\<rparr>"

text \<open>Bounds and dates in year 0 and in the years that the constructor reads as 19xx.\<close>

definition exampleYearZeroMinDate :: jsdate where
  "exampleYearZeroMinDate = \<lparr>getFullYear = 0, getMonth = 0, getDate = 1, msOfDay = 0\<rparr>"

definition exampleYearZeroLeapDay :: jsdate where
  "exampleYearZeroLeapDay = \<lparr>getFullYear = 0, getMonth = 1, getDate = 29, msOfDay = 0\<rparr>"

text \<open>Props of example openings, and states that occur in them.\<close>

definition exampleLeapProps :: dialogProps where
  "exampleLeapProps =
     \<lparr>initialDateProp = Some exampleLeapDay, minDateProp = Some defaultMinDate,
      maxDateProp = None\<rparr>"

definition exampleStaleState :: picker where
  "exampleStaleState =
     \<lparr>selectedYear = Some 2023, selectedMonth = Some 2, selectedDay = Some 29,
      isInitializing = False, visible = True, yearChanged = False, monthChanged = False\<rparr>"

definition exampleLegacyMinDate :: jsdate where
  "exampleLegacyMinDate = \<lparr>getFullYear = 50, getMonth = 0, getDate = 1, msOfDay = 0\<rparr>"

definition exampleLegacyDate :: jsdate where
  "exampleLegacyDate = \<lparr>getFullYear = 50, getMonth = 2, getDate = 10, msOfDay = 0\<rparr>"

definition exampleLegacyProps :: dialogProps where
  "exampleLegacyProps =
     \<lparr>initialDateProp = Some exampleLegacyDate, minDateProp = Some exampleLegacyMinDate,
      maxDateProp = None\<rparr>"

definition exampleLegacyState :: picker where
  "exampleLegacyState =
     \<lparr>selectedYear = Some 50, selectedMonth = Some 3, selectedDay = Some 10,
      isInitializing = False, visible = True, yearChanged = False, monthChanged = False\<rparr>"

definition noCallbacks :: callbacks where
  "noCallbacks = \<lparr>onConfirm = False, onCancel = False, onDismiss = False\<rparr>"



section \<open>Properties of the range lists\<close>

lemma arrayFrom_upto: "arrayFrom (hi - lo + 1) (\<lambda>i. lo + i) = [lo..hi]"
proof (rule nth_equalityI)
  show "length (arrayFrom (hi - lo + 1) (\<lambda>i. lo + i)) = length [lo..hi]"
    by (simp add: arrayFrom_def)
next
  fix k assume "k < length (arrayFrom (hi - lo + 1) (\<lambda>i. lo + i))"
  then have k: "k < nat (hi - lo + 1)" by (simp add: arrayFrom_def)
  then have "lo + int k \<le> hi" by linarith
  then have "[lo..hi] ! k = lo + int k" by (rule nth_upto)
  with k show "arrayFrom (hi - lo + 1) (\<lambda>i. lo + i) ! k = [lo..hi] ! k"
    by (simp add: arrayFrom_def)
qed

lemma arrayFrom_upto': "arrayFrom (hi + 1 - lo + 1) (\<lambda>i. lo + i) = [lo..hi + 1]"
  using arrayFrom_upto [of "hi + 1" lo] by simp

text \<open>
  C5. The year list is the contiguous ascending run of integers from the year of
  \<open>minDate\<close> to the year of \<open>effectiveMaxDate\<close>, both included, and it is empty exactly
  when the year of \<open>minDate\<close> is greater than the year of \<open>effectiveMaxDate\<close>.
\<close>

theorem buildYearList_contiguous:
  "buildYearList minDate effMaxDate
     = [getFullYear minDate .. getFullYear effMaxDate] \<and>
   (buildYearList minDate effMaxDate = []
     \<longleftrightarrow> getFullYear effMaxDate < getFullYear minDate)"
  by (simp add: buildYearList_def arrayFrom_upto)

subsection \<open>The last day of a month, as the Date constructor computes it\<close>

lemma daysInMonth_bounds: "28 \<le> daysInMonth y m \<and> daysInMonth y m \<le> 31"
  by (simp add: daysInMonth_def)

lemma normalizeDate_valid:
  "1 \<le> d \<Longrightarrow> d \<le> daysInMonth y (m + 1) \<Longrightarrow> normalizeDate y m d = (y, m, d)"
  by (subst normalizeDate.simps) simp

lemma normalizeDate_zero:
  "normalizeDate y m 0 =
     (if m = 0 then (y - 1, 11, daysInMonth (y - 1) 12) else (y, m - 1, daysInMonth y m))"
  using daysInMonth_bounds [of "y - 1" 12] daysInMonth_bounds [of y m]
  by (subst normalizeDate.simps) (simp add: normalizeDate_valid)

lemma pred_div_mod_12:
  fixes month :: int
  shows "(month - 1) div 12 = (if month mod 12 = 0 then month div 12 - 1 else month div 12) \<and>
         (month - 1) mod 12 = (if month mod 12 = 0 then 11 else month mod 12 - 1)"
proof -
  define q where "q = month div 12"
  define r where "r = month mod 12"
  have e: "month = 12 * q + r" unfolding q_def r_def by simp
  have r: "0 \<le> r" "r < 12" unfolding r_def by simp_all
  have "(month - 1) div 12 = (if r = 0 then q - 1 else q) \<and>
        (month - 1) mod 12 = (if r = 0 then 11 else r - 1)"
  proof (cases "r = 0")
    case True
    with e have d: "month - 1 = 12 * (q - 1) + 11" by simp
    have "(month - 1) div 12 = q - 1" by (rule int_div_pos_eq [OF d]) simp_all
    moreover have "(month - 1) mod 12 = 11" by (rule int_mod_pos_eq [OF d]) simp_all
    ultimately show ?thesis using True by simp
  next
    case False
    with r have b: "0 \<le> r - 1" "r - 1 < 12" by simp_all
    from e have d: "month - 1 = 12 * q + (r - 1)" by simp
    have "(month - 1) div 12 = q" by (rule int_div_pos_eq [OF d b])
    moreover have "(month - 1) mod 12 = r - 1" by (rule int_mod_pos_eq [OF d b])
    ultimately show ?thesis using False by simp
  qed
  then show ?thesis unfolding q_def r_def .
qed

lemma lastDateOfMonth_eq:
  "lastDateOfMonth year month =
     daysInMonth (constructorYear year + (month - 1) div 12) ((month - 1) mod 12 + 1)"
proof (cases "month mod 12 = 0")
  case True
  then show ?thesis
    using pred_div_mod_12 [of month]
    by (simp add: lastDateOfMonth_def makeDate_def normalizeDate_zero add_diff_eq)
next
  case False
  then show ?thesis
    using pred_div_mod_12 [of month]
    by (simp add: lastDateOfMonth_def makeDate_def normalizeDate_zero add_diff_eq)
qed

lemma leapYear_constructorYear:
  assumes "year \<noteq> 0"
  shows "leapYear (constructorYear year) = leapYear year"
proof (cases "legacyYear year")
  case True
  with assms have r: "1 \<le> year" "year \<le> 99" by (simp_all add: legacyYear_def)
  have "(year + 4 * 475) mod 4 = year mod 4" by (rule mod_mult_self2)
  then have m4: "(1900 + year) mod 4 = year mod 4" by (simp add: add.commute)
  have "(year + 100 * 19) mod 100 = year mod 100" by (rule mod_mult_self2)
  then have m100: "(1900 + year) mod 100 = year mod 100" by (simp add: add.commute)
  from r have "year mod 100 = year" by simp
  with r have "year mod 100 \<noteq> 0" by simp
  with True show ?thesis
    by (simp add: constructorYear_def leapYear_def m4 m100)
next
  case False
  then show ?thesis by (simp add: constructorYear_def)
qed

lemma lastDateOfMonth_calendar:
  assumes "1 \<le> month" "month \<le> 12" "year \<noteq> 0"
  shows "lastDateOfMonth year month = daysInMonth year month"
proof -
  from assms have a: "(month - 1) div 12 = 0" "(month - 1) mod 12 + 1 = month" by auto
  show ?thesis
    by (simp add: lastDateOfMonth_eq a daysInMonth_def leapYear_constructorYear [OF assms(3)])
qed

lemma lastDateOfMonth_le:
  assumes "1 \<le> month" "month \<le> 12"
  shows "lastDateOfMonth year month \<le> daysInMonth year month"
proof (cases "year = 0")
  case True
  from assms have a: "(month - 1) div 12 = 0" "(month - 1) mod 12 + 1 = month" by auto
  show ?thesis
    by (simp add: lastDateOfMonth_eq a True daysInMonth_def constructorYear_def legacyYear_def leapYear_def)
next
  case False
  then show ?thesis using assms by (simp add: lastDateOfMonth_calendar)
qed

subsection \<open>The month and day lists\<close>

lemma set_buildYearList:
  "y \<in> set (buildYearList mn mx) \<longleftrightarrow> getFullYear mn \<le> y \<and> y \<le> getFullYear mx"
  by (simp add: buildYearList_def arrayFrom_upto)

lemma buildMonthList_Some:
  "buildMonthList mn mx (Some y) =
     (if getFullYear mx < y then []
      else [(if y = getFullYear mn then getMonth mn + 1 else 1) ..
            (if y = getFullYear mx then getMonth mx + 1 else 12)])"
  using arrayFrom_upto [of 12] arrayFrom_upto' [of "getMonth mx"]
  by (auto simp add: buildMonthList_def js_greater_def Let_def)

lemma buildDayList_Some:
  "buildDayList mn mx (Some y) (Some m) =
     (if getFullYear mx < y \<or> (y = getFullYear mx \<and> getMonth mx + 1 < m) then []
      else [(if y = getFullYear mn \<and> m = getMonth mn + 1 then getDate mn else 1) ..
            (if y = getFullYear mx \<and> m = getMonth mx + 1 then getDate mx
             else lastDateOfMonth y m)])"
  by (auto simp add: buildDayList_def js_greater_def Let_def arrayFrom_upto)

text \<open>
  C4. For every year of the year list, the month list is the contiguous ascending run
  from the month of \<open>minDate\<close> (when the year is that of \<open>minDate\<close>, else 1) to the month
  of \<open>effectiveMaxDate\<close> (when the year is that of \<open>effectiveMaxDate\<close>, else 12); it is
  1 to 12 for a year strictly between the two, and it is empty for every year greater
  than that of \<open>effectiveMaxDate\<close>. Months are counted from 1, that is \<open>getMonth + 1\<close>.
\<close>

theorem buildMonthList_range:
  "(year \<in> set (buildYearList minDate effMaxDate) \<longrightarrow>
      buildMonthList minDate effMaxDate (Some year) =
        [(if year = getFullYear minDate then getMonth minDate + 1 else 1) ..
         (if year = getFullYear effMaxDate then getMonth effMaxDate + 1 else 12)]) \<and>
   (year \<in> set (buildYearList minDate effMaxDate) \<and>
      year \<noteq> getFullYear minDate \<and> year \<noteq> getFullYear effMaxDate \<longrightarrow>
      buildMonthList minDate effMaxDate (Some year) = [1..12]) \<and>
   (getFullYear effMaxDate < year \<longrightarrow>
      buildMonthList minDate effMaxDate (Some year) = [])"
  by (simp add: buildMonthList_Some set_buildYearList)

theorem buildMonthList_range_witness:
  "2024 \<in> set (buildYearList defaultMinDate exampleToday) \<and>
   buildMonthList defaultMinDate exampleToday (Some 2024) = [1, 2, 3, 4, 5, 6] \<and>
   2000 \<in> set (buildYearList defaultMinDate exampleToday) \<and>
   buildMonthList defaultMinDate exampleToday (Some 2000)
     = [1, 2, 3, 4, 5, 6, 7, 8, 9, 10, 11, 12] \<and>
   buildMonthList defaultMinDate exampleToday (Some 2025) = []"
  using buildMonthList_range [of 2024 defaultMinDate exampleToday]
    buildMonthList_range [of 2000 defaultMinDate exampleToday]
    buildMonthList_range [of 2025 defaultMinDate exampleToday]
  by (simp add: set_buildYearList defaultMinDate_def exampleToday_def upto_rec1)

text \<open>
  For a month of a representable year other than 0 the day list is the run from \<open>lo\<close>
  to \<open>hi\<close>, narrowed at the bounds as the month list is, with the true length of the
  month as \<open>hi\<close> where \<open>effectiveMaxDate\<close> does not narrow it.
\<close>

lemma buildDayList_range:
  assumes m: "1 \<le> month" "month \<le> 12" "year \<noteq> 0" and "representableYear year"
  shows
    "(\<not> (getFullYear effMaxDate < year \<or>
          (year = getFullYear effMaxDate \<and> getMonth effMaxDate + 1 < month)) \<longrightarrow>
        buildDayList minDate effMaxDate (Some year) (Some month) =
          [(if year = getFullYear minDate \<and> month = getMonth minDate + 1
            then getDate minDate else 1) ..
           (if year = getFullYear effMaxDate \<and> month = getMonth effMaxDate + 1
            then getDate effMaxDate else daysInMonth year month)]) \<and>
     (\<not> (getFullYear effMaxDate < year \<or>
          (year = getFullYear effMaxDate \<and> getMonth effMaxDate + 1 < month)) \<and>
      \<not> (year = getFullYear minDate \<and> month = getMonth minDate + 1) \<and>
      \<not> (year = getFullYear effMaxDate \<and> month = getMonth effMaxDate + 1) \<longrightarrow>
        int (length (buildDayList minDate effMaxDate (Some year) (Some month)))
          = daysInMonth year month) \<and>
     (getFullYear effMaxDate < year \<or>
          (year = getFullYear effMaxDate \<and> getMonth effMaxDate + 1 < month) \<longrightarrow>
        buildDayList minDate effMaxDate (Some year) (Some month) = [])"
proof -
  have t: "lastDateOfMonth year month = daysInMonth year month"
    using m by (rule lastDateOfMonth_calendar)
  have d: "buildDayList minDate effMaxDate (Some year) (Some month) =
     (if getFullYear effMaxDate < year \<or>
         (year = getFullYear effMaxDate \<and> getMonth effMaxDate + 1 < month) then []
      else [(if year = getFullYear minDate \<and> month = getMonth minDate + 1
             then getDate minDate else 1) ..
            (if year = getFullYear effMaxDate \<and> month = getMonth effMaxDate + 1
             then getDate effMaxDate else daysInMonth year month)])"
    unfolding buildDayList_Some t ..
  have "0 \<le> daysInMonth year month" by (simp add: daysInMonth_def)
  then show ?thesis
    unfolding d by simp
qed

text \<open>
  C3 against the code. With \<open>minDate\<close> 0000-01-01, a valid Date, and \<open>effectiveMaxDate\<close>
  2024-06-15, February of year 0 lies between the bounds, in the year list and the
  month list, and in neither bound's month. Year 0 is a leap year of the calendar that
  Date objects follow, so the month has 29 days; \<open>new Date(0, 2, 0)\<close> reads the year as
  1900 and gives 28, and the day list has 28 entries.
\<close>

theorem buildDayList_year_zero:
  "validDate exampleYearZeroMinDate \<and> validDate exampleToday \<and>
   calendarLe (calendarDate exampleYearZeroMinDate) (0, 2, 1) \<and>
   calendarLe (0, 2, 29) (calendarDate exampleToday) \<and>
   js_includes (buildYearList exampleYearZeroMinDate exampleToday) (Some 0) \<and>
   js_includes (buildMonthList exampleYearZeroMinDate exampleToday (Some 0)) (Some 2) \<and>
   daysInMonth 0 2 = 29 \<and>
   lastDateOfMonth 0 2 = 28 \<and>
   buildDayList exampleYearZeroMinDate exampleToday (Some 0) (Some 2) = [1..28] \<and>
   length (buildDayList exampleYearZeroMinDate exampleToday (Some 0) (Some 2)) = 28"
proof -
  have t: "lastDateOfMonth 0 2 = 28"
    by (simp add: lastDateOfMonth_eq constructorYear_def legacyYear_def daysInMonth_def
        leapYear_def)
  have d: "buildDayList exampleYearZeroMinDate exampleToday (Some 0) (Some 2) = [1..28]"
    by (simp add: buildDayList_Some t exampleYearZeroMinDate_def exampleToday_def)
  have "validDate exampleYearZeroMinDate" "validDate exampleToday"
    by (simp_all add: validDate_def representableYear_def exampleYearZeroMinDate_def
        exampleToday_def daysInMonth_def)
  moreover have "calendarLe (calendarDate exampleYearZeroMinDate) (0, 2, 1)"
    "calendarLe (0, 2, 29) (calendarDate exampleToday)"
    by (simp_all add: calendarLe_def calendarDate_def exampleYearZeroMinDate_def
        exampleToday_def)
  moreover have "js_includes (buildYearList exampleYearZeroMinDate exampleToday) (Some 0)"
    by (simp add: js_includes_def set_buildYearList exampleYearZeroMinDate_def
        exampleToday_def)
  moreover have
    "js_includes (buildMonthList exampleYearZeroMinDate exampleToday (Some 0)) (Some 2)"
    by (simp add: js_includes_def buildMonthList_Some exampleYearZeroMinDate_def
        exampleToday_def)
  moreover have "daysInMonth 0 2 = 29"
    by (simp add: daysInMonth_def leapYear_def)
  ultimately show ?thesis using t d by simp
qed

section \<open>Properties of effectiveMaxDate\<close>

lemma date_less_setHoursZero:
  "0 \<le> msOfDay d \<Longrightarrow> \<not> date_less d (setHoursZero d)"
  by (simp add: date_less_def setHoursZero_def)

lemma date_less_trans: "date_less a b \<Longrightarrow> date_less b c \<Longrightarrow> date_less a c"
  unfolding date_less_def by linarith

lemma date_not_less_trans:
  "\<not> date_less b a \<Longrightarrow> \<not> date_less c b \<Longrightarrow> \<not> date_less c a"
  unfolding date_less_def by linarith

text \<open>
  C6. For a supplied \<open>maxDate\<close> (a valid Date, time of day not negative),
  \<open>effectiveMaxDate\<close> is \<open>maxDate\<close> at midnight when \<open>maxDate\<close> is not later than
  \<open>today\<close>, and \<open>today\<close> when \<open>maxDate\<close> is later than \<open>today\<close>; without \<open>maxDate\<close> it is
  \<open>today\<close>; in every case \<open>effectiveMaxDate\<close> is not later than \<open>today\<close>.
\<close>

theorem effectiveMaxDate_clamped:
  "(0 \<le> msOfDay d \<and> \<not> date_greater d (today now)
      \<longrightarrow> effectiveMaxDate now (Some d) = setHoursZero d) \<and>
   (date_greater d (today now) \<longrightarrow> effectiveMaxDate now (Some d) = today now) \<and>
   effectiveMaxDate now None = today now \<and>
   \<not> date_greater (effectiveMaxDate now maxDate) (today now)"
proof (intro conjI impI)
  assume a: "0 \<le> msOfDay d \<and> \<not> date_greater d (today now)"
  then have "\<not> date_less (today now) (setHoursZero d)"
    using date_not_less_trans [of d "setHoursZero d" "today now"] date_less_setHoursZero [of d]
    by (auto simp add: date_greater_def)
  then show "effectiveMaxDate now (Some d) = setHoursZero d"
    by (simp add: effectiveMaxDate_def date_greater_def)
next
  assume a: "date_greater d (today now)"
  show "effectiveMaxDate now (Some d) = today now"
  proof (cases "date_greater (setHoursZero d) (today now)")
    case True
    then show ?thesis by (simp add: effectiveMaxDate_def)
  next
    case False
    with a have "setHoursZero d = today now"
      by (auto simp add: date_greater_def date_less_def setHoursZero_def today_def)
    with False show ?thesis by (simp add: effectiveMaxDate_def)
  qed
next
  show "effectiveMaxDate now None = today now"
    by (simp add: effectiveMaxDate_def)
next
  show "\<not> date_greater (effectiveMaxDate now maxDate) (today now)"
    by (cases maxDate) (auto simp add: effectiveMaxDate_def Let_def date_greater_def date_less_def)
qed

theorem effectiveMaxDate_clamped_witness:
  "date_greater exampleMaxDate (today exampleToday) \<and>
   effectiveMaxDate exampleToday (Some exampleMaxDate) = exampleToday \<and>
   0 \<le> msOfDay examplePastDate \<and> \<not> date_greater examplePastDate (today exampleToday) \<and>
   effectiveMaxDate exampleToday (Some examplePastDate)
     = \<lparr>getFullYear = 2023, getMonth = 1, getDate = 28, msOfDay = 0\<rparr>"
  using effectiveMaxDate_clamped [of exampleMaxDate exampleToday]
    effectiveMaxDate_clamped [of examplePastDate exampleToday]
  by (simp add: exampleMaxDate_def examplePastDate_def exampleToday_def today_def
      setHoursZero_def date_greater_def date_less_def)

section \<open>Properties of the offset and index formulas\<close>

lemma clampIndex_legal:
  "0 \<le> i \<Longrightarrow> i < int (length values) \<Longrightarrow> clampIndex values i = i"
  by (simp add: clampIndex_def)

lemma js_round_of_int: "js_round (real_of_int i) = i"
  unfolding js_round_def by linarith

text \<open>
  C8. For every column value list and every legal index \<open>i\<close>, the offset that
  \<open>scrollToIndex\<close> scrolls to, \<open>(i - C) * H + 2 * H\<close> clamped at 0 with \<open>H = 46\<close> and
  \<open>C = 2\<close>, is read back by \<open>handleScroll\<close>, which rounds
  \<open>(offsetY + H * C - 2 * H) / H\<close> and clamps into the list bounds, as \<open>i\<close> again.
\<close>

theorem scroll_round_trip:
  assumes "0 \<le> i" and "i < int (length values)"
  shows "fst (scrollToIndex values i) = i \<and>
         snd (scrollToIndex values i) = max 0 ((real_of_int i - 2) * 46 + 2 * 46) \<and>
         handleScroll values (snd (scrollToIndex values i)) = i"
proof -
  have c: "clampIndex values i = i" using assms by (rule clampIndex_legal)
  have o: "snd (scrollToIndex values i) = 46 * real_of_int i"
    using assms(1)
    by (simp add: scrollToIndex_def c Let_def VISIBLE_ITEM_COUNT_def ITEM_HEIGHT_def
        PADDING_def algebra_simps)
  have "handleScroll values (46 * real_of_int i) = i"
    by (simp add: handleScroll_def Let_def VISIBLE_ITEM_COUNT_def ITEM_HEIGHT_def
        PADDING_def js_round_of_int c)
  with o show ?thesis
    using assms(1)
    by (simp add: scrollToIndex_def c Let_def algebra_simps)
qed

theorem scroll_round_trip_witness:
  "(0::int) \<le> 3 \<and> 3 < int (length [2020, 2021, 2022, 2023, 2024 :: int]) \<and>
   snd (scrollToIndex [2020, 2021, 2022, 2023, 2024] 3) = 138 \<and>
   handleScroll [2020, 2021, 2022, 2023, 2024]
     (snd (scrollToIndex [2020, 2021, 2022, 2023, 2024] 3)) = 3"
  using scroll_round_trip [of 3 "[2020, 2021, 2022, 2023, 2024]"]
  by auto

section \<open>Properties of the seeded selection\<close>

lemma seed_in_range:
  assumes y: "getFullYear mn \<le> getFullYear f" "getFullYear f \<le> getFullYear mx"
    and m: "(if getFullYear f = getFullYear mn then getMonth mn + 1 else 1) \<le> getMonth f + 1"
           "getMonth f + 1 \<le> (if getFullYear f = getFullYear mx then getMonth mx + 1 else 12)"
    and d: "(if getFullYear f = getFullYear mn \<and> getMonth f = getMonth mn
              then getDate mn else 1) \<le> getDate f"
           "getDate f \<le> (if getFullYear f = getFullYear mx \<and> getMonth f = getMonth mx
              then getDate mx else lastDateOfMonth (getFullYear f) (getMonth f + 1))"
    and f: "(if date_less (if date_greater d0 mx then mx else d0) mn then mn
             else (if date_greater d0 mx then mx else d0)) = f"
  shows "initializeSelection mn mx t (Some d0) = calendarDate f"
proof -
  have cy: "max (getFullYear mn) (min (getFullYear f) (getFullYear mx)) = getFullYear f"
    using y by simp
  have ms: "buildMonthList mn mx (Some (getFullYear f)) =
      [(if getFullYear f = getFullYear mn then getMonth mn + 1 else 1) ..
       (if getFullYear f = getFullYear mx then getMonth mx + 1 else 12)]"
    using y by (simp add: buildMonthList_Some)
  have mi: "js_includes (buildMonthList mn mx (Some (getFullYear f))) (Some (getMonth f + 1))"
    unfolding ms js_includes_def using m by simp
  have ml: "0 < length (buildMonthList mn mx (Some (getFullYear f)))"
    using mi by (auto simp add: js_includes_def)
  have ds: "buildDayList mn mx (Some (getFullYear f)) (Some (getMonth f + 1)) =
      [(if getFullYear f = getFullYear mn \<and> getMonth f = getMonth mn then getDate mn else 1) ..
       (if getFullYear f = getFullYear mx \<and> getMonth f = getMonth mx then getDate mx
        else lastDateOfMonth (getFullYear f) (getMonth f + 1))]"
    using y m by (simp add: buildDayList_Some split: if_splits)
  have di: "js_includes (buildDayList mn mx (Some (getFullYear f)) (Some (getMonth f + 1)))
              (Some (getDate f))"
    unfolding ds js_includes_def using d by simp
  have dl: "0 < length (buildDayList mn mx (Some (getFullYear f)) (Some (getMonth f + 1)))"
    using di by (auto simp add: js_includes_def)
  show ?thesis
    unfolding initializeSelection_def Let_def option.case f cy
    using mi ml di dl by (simp add: calendarDate_def)
qed

lemma validDate_last:
  "validDate d \<Longrightarrow> getFullYear d \<noteq> 0
   \<Longrightarrow> getDate d \<le> lastDateOfMonth (getFullYear d) (getMonth d + 1)"
  by (simp add: validDate_def lastDateOfMonth_calendar)

lemma calendarLe_dates:
  "calendarLe (calendarDate a) (calendarDate b) \<longleftrightarrow>
     getFullYear a < getFullYear b \<or>
     (getFullYear a = getFullYear b \<and>
       (getMonth a < getMonth b \<or> (getMonth a = getMonth b \<and> getDate a \<le> getDate b)))"
  by (auto simp add: calendarLe_def calendarDate_def)

lemma lex_month_lo:
  fixes y1 :: int and m1 :: int and d1 :: int
  assumes "y1 < y2 \<or> (y1 = y2 \<and> (m1 < m2 \<or> (m1 = m2 \<and> d1 \<le> d2)))" and "0 \<le> m2"
  shows "(if y2 = y1 then m1 + 1 else 1) \<le> m2 + 1"
  using assms by auto

lemma lex_month_hi:
  fixes y1 :: int and m1 :: int and d1 :: int
  assumes "y1 < y2 \<or> (y1 = y2 \<and> (m1 < m2 \<or> (m1 = m2 \<and> d1 \<le> d2)))" and "m1 \<le> 11"
  shows "m1 + 1 \<le> (if y1 = y2 then m2 + 1 else 12)"
  using assms by auto

lemma lex_day_lo:
  fixes y1 :: int and m1 :: int and d1 :: int
  assumes "y1 < y2 \<or> (y1 = y2 \<and> (m1 < m2 \<or> (m1 = m2 \<and> d1 \<le> d2)))" and "1 \<le> d2"
  shows "(if y2 = y1 \<and> m2 = m1 then d1 else 1) \<le> d2"
  using assms by auto

lemma lex_day_hi:
  fixes y1 :: int and m1 :: int and d1 :: int
  assumes "y1 < y2 \<or> (y1 = y2 \<and> (m1 < m2 \<or> (m1 = m2 \<and> d1 \<le> d2)))" and "d1 \<le> t"
  shows "d1 \<le> (if y1 = y2 \<and> m1 = m2 then d2 else t)"
  using assms by auto

lemma lex_year:
  fixes y1 :: int and m1 :: int and d1 :: int
  assumes "y1 < y2 \<or> (y1 = y2 \<and> (m1 < m2 \<or> (m1 = m2 \<and> d1 \<le> d2)))"
  shows "y1 \<le> y2"
  using assms by auto

lemma not_date_less_calendarLe:
  "\<not> date_less b a \<Longrightarrow> calendarLe (calendarDate a) (calendarDate b)"
  unfolding calendarLe_dates date_less_def by linarith

lemma seed_calendar_range:
  assumes f: "validDate f"
    and lo: "calendarLe (calendarDate mn) (calendarDate f)"
    and hi: "calendarLe (calendarDate f) (calendarDate mx)"
    and t: "getDate f \<le> lastDateOfMonth (getFullYear f) (getMonth f + 1)"
    and e: "(if date_less (if date_greater d0 mx then mx else d0) mn then mn
             else (if date_greater d0 mx then mx else d0)) = f"
  shows "initializeSelection mn mx t0 (Some d0) = calendarDate f"
proof (rule seed_in_range [where f = f, OF _ _ _ _ _ _ e])
  note lo' = lo [unfolded calendarLe_dates] and hi' = hi [unfolded calendarLe_dates]
  from f have v: "0 \<le> getMonth f" "getMonth f \<le> 11" "1 \<le> getDate f"
    by (simp_all add: validDate_def)
  show "getFullYear mn \<le> getFullYear f" using lo' by (rule lex_year)
  show "getFullYear f \<le> getFullYear mx" using hi' by (rule lex_year)
  show "(if getFullYear f = getFullYear mn then getMonth mn + 1 else 1) \<le> getMonth f + 1"
    using lo' v(1) by (rule lex_month_lo)
  show "getMonth f + 1 \<le> (if getFullYear f = getFullYear mx then getMonth mx + 1 else 12)"
    using hi' v(2) by (rule lex_month_hi)
  show "(if getFullYear f = getFullYear mn \<and> getMonth f = getMonth mn
         then getDate mn else 1) \<le> getDate f"
    using lo' v(3) by (rule lex_day_lo)
  show "getDate f \<le> (if getFullYear f = getFullYear mx \<and> getMonth f = getMonth mx
         then getDate mx else lastDateOfMonth (getFullYear f) (getMonth f + 1))"
    using hi' t by (rule lex_day_hi)
qed

lemma calendarLe_antisym: "calendarLe a b \<Longrightarrow> calendarLe b a \<Longrightarrow> a = b"
  by (cases a, cases b) (auto simp add: calendarLe_def)

lemma calendarLe_refl: "calendarLe (calendarDate a) (calendarDate a)"
  by (simp add: calendarLe_dates)

lemma seed_effMaxDate:
  assumes mn: "validDate mn" and mx: "validDate mx"
    and le: "calendarLe (calendarDate mn) (calendarDate mx)"
    and e: "(if date_less (if date_greater d0 mx then mx else d0) mn then mn
             else (if date_greater d0 mx then mx else d0)) = mx"
  shows "initializeSelection mn mx t0 (Some d0) = calendarDate mx"
proof (rule seed_in_range [where f = mx, OF _ _ _ _ _ _ e])
  note le' = le [unfolded calendarLe_dates]
  from mx have v: "0 \<le> getMonth mx" "1 \<le> getDate mx" by (simp_all add: validDate_def)
  show "getFullYear mn \<le> getFullYear mx" using le' by (rule lex_year)
  show "getFullYear mx \<le> getFullYear mx" by simp
  show "(if getFullYear mx = getFullYear mn then getMonth mn + 1 else 1) \<le> getMonth mx + 1"
    using le' v(1) by (rule lex_month_lo)
  show "getMonth mx + 1 \<le> (if getFullYear mx = getFullYear mx then getMonth mx + 1 else 12)"
    by simp
  show "(if getFullYear mx = getFullYear mn \<and> getMonth mx = getMonth mn
         then getDate mn else 1) \<le> getDate mx"
    using le' v(2) by (rule lex_day_lo)
  show "getDate mx \<le> (if getFullYear mx = getFullYear mx \<and> getMonth mx = getMonth mx
         then getDate mx else lastDateOfMonth (getFullYear mx) (getMonth mx + 1))"
    by simp
qed

lemma example_bounds_valid: "validBounds defaultMinDate exampleToday"
  by (simp add: validBounds_def validDate_def representableYear_def defaultMinDate_def
      exampleToday_def daysInMonth_def calendarLe_def calendarDate_def lastDateOfMonth_eq
      constructorYear_def legacyYear_def)

section \<open>Properties of confirm and cancel\<close>

lemma makeDate_valid:
  assumes "1 \<le> m" and "m \<le> 12" and "1 \<le> d" and "d \<le> daysInMonth y m"
    and "\<not> legacyYear y"
  shows "makeDate y (m - 1) d = \<lparr>getFullYear = y, getMonth = m - 1, getDate = d, msOfDay = 0\<rparr>"
proof -
  from assms(1,2) have i: "(m - 1) div 12 = 0" "(m - 1) mod 12 = m - 1" by simp_all
  have "normalizeDate y (m - 1) d = (y, m - 1, d)"
    using assms(3,4) by (simp add: normalizeDate_valid)
  with assms(5) show ?thesis
    by (simp add: makeDate_def constructorYear_def i)
qed

section \<open>Properties of the selection state\<close>

lemma month_bounds_arith:
  fixes y1 :: int and m1 :: int and d1 :: int
  assumes "y1 < y2 \<or> (y1 = y2 \<and> (m1 < m2 \<or> (m1 = m2 \<and> d1 \<le> d2)))"
    and "0 \<le> m1" and "m1 \<le> 11" and "0 \<le> m2" and "m2 \<le> 11"
    and "y1 \<le> y" and "y \<le> y2"
  shows "(if y = y1 then m1 + 1 else 1) \<le> (if y = y2 then m2 + 1 else 12)"
  using assms by auto

lemma day_bounds_arith:
  fixes y1 :: int and m1 :: int and d1 :: int
  assumes "y1 < y2 \<or> (y1 = y2 \<and> (m1 < m2 \<or> (m1 = m2 \<and> d1 \<le> d2)))"
    and "1 \<le> d2" and "28 \<le> t" and "y = y1 \<and> m = m1 + 1 \<longrightarrow> d1 \<le> t"
  shows "(if y = y1 \<and> m = m1 + 1 then d1 else 1) \<le> (if y = y2 \<and> m = m2 + 1 then d2 else t)"
  using assms by auto

lemma valid_arith:
  fixes y1 :: int and m1 :: int and d1 :: int
  assumes "y1 \<le> y" and "y \<le> y2"
    and "(if y = y1 then m1 + 1 else 1) \<le> m" and "m \<le> (if y = y2 then m2 + 1 else 12)"
    and "(if y = y1 \<and> m = m1 + 1 then d1 else 1) \<le> d"
    and "d \<le> (if y = y2 \<and> m = m2 + 1 then d2 else t)"
    and "0 \<le> m1" and "m2 \<le> 11" and "1 \<le> d1"
    and "t \<le> T" and "y = y2 \<and> m = m2 + 1 \<longrightarrow> d2 \<le> T"
  shows "(y1 < y \<or> (y1 = y \<and> (m1 + 1 < m \<or> (m1 + 1 = m \<and> d1 \<le> d)))) \<and>
         (y < y2 \<or> (y = y2 \<and> (m < m2 + 1 \<or> (m = m2 + 1 \<and> d \<le> d2)))) \<and>
         1 \<le> m \<and> m \<le> 12 \<and> 1 \<le> d \<and> d \<le> T"
  using assms by (auto split: if_splits)

lemma lastDateOfMonth_ge: "28 \<le> lastDateOfMonth y m"
  by (simp add: lastDateOfMonth_eq daysInMonth_def)

lemma months_in_range:
  assumes wf: "validBounds mn mx"
    and y: "getFullYear mn \<le> y" "y \<le> getFullYear mx"
  shows "buildMonthList mn mx (Some y) =
           [(if y = getFullYear mn then getMonth mn + 1 else 1) ..
            (if y = getFullYear mx then getMonth mx + 1 else 12)]"
    and "(if y = getFullYear mn then getMonth mn + 1 else 1)
           \<le> (if y = getFullYear mx then getMonth mx + 1 else 12)"
proof -
  show "buildMonthList mn mx (Some y) =
           [(if y = getFullYear mn then getMonth mn + 1 else 1) ..
            (if y = getFullYear mx then getMonth mx + 1 else 12)]"
    using y(2) by (simp add: buildMonthList_Some)
  from wf have le: "getFullYear mn < getFullYear mx \<or>
     (getFullYear mn = getFullYear mx \<and>
       (getMonth mn < getMonth mx \<or> (getMonth mn = getMonth mx \<and> getDate mn \<le> getDate mx)))"
    by (simp add: validBounds_def calendarLe_dates)
  from wf have v: "0 \<le> getMonth mn" "getMonth mn \<le> 11" "0 \<le> getMonth mx" "getMonth mx \<le> 11"
    by (simp_all add: validBounds_def validDate_def)
  show "(if y = getFullYear mn then getMonth mn + 1 else 1)
           \<le> (if y = getFullYear mx then getMonth mx + 1 else 12)"
    using le v y by (rule month_bounds_arith)
qed

lemma days_in_range:
  assumes wf: "validBounds mn mx"
    and y: "getFullYear mn \<le> y" "y \<le> getFullYear mx"
    and m: "m \<in> set (buildMonthList mn mx (Some y))"
  shows "buildDayList mn mx (Some y) (Some m) =
           [(if y = getFullYear mn \<and> m = getMonth mn + 1 then getDate mn else 1) ..
            (if y = getFullYear mx \<and> m = getMonth mx + 1 then getDate mx
             else lastDateOfMonth y m)]"
    and "(if y = getFullYear mn \<and> m = getMonth mn + 1 then getDate mn else 1)
           \<le> (if y = getFullYear mx \<and> m = getMonth mx + 1 then getDate mx
               else lastDateOfMonth y m)"
proof -
  from m have mr: "m \<le> (if y = getFullYear mx then getMonth mx + 1 else 12)"
    unfolding months_in_range(1) [OF wf y] by simp
  then have na: "\<not> (getFullYear mx < y \<or> (y = getFullYear mx \<and> getMonth mx + 1 < m))"
    using y(2) by (simp split: if_splits)
  show "buildDayList mn mx (Some y) (Some m) =
           [(if y = getFullYear mn \<and> m = getMonth mn + 1 then getDate mn else 1) ..
            (if y = getFullYear mx \<and> m = getMonth mx + 1 then getDate mx
             else lastDateOfMonth y m)]"
    unfolding buildDayList_Some using na by (simp only: if_False)
  from wf have le: "getFullYear mn < getFullYear mx \<or>
     (getFullYear mn = getFullYear mx \<and>
       (getMonth mn < getMonth mx \<or> (getMonth mn = getMonth mx \<and> getDate mn \<le> getDate mx)))"
    by (simp add: validBounds_def calendarLe_dates)
  from wf have v: "1 \<le> getDate mx" by (simp add: validBounds_def validDate_def)
  from wf have "getDate mn \<le> lastDateOfMonth (getFullYear mn) (getMonth mn + 1)"
    by (simp add: validBounds_def)
  then have t: "y = getFullYear mn \<and> m = getMonth mn + 1
      \<longrightarrow> getDate mn \<le> lastDateOfMonth y m" by simp
  show "(if y = getFullYear mn \<and> m = getMonth mn + 1 then getDate mn else 1)
           \<le> (if y = getFullYear mx \<and> m = getMonth mx + 1 then getDate mx
               else lastDateOfMonth y m)"
    using le v lastDateOfMonth_ge t by (rule day_bounds_arith)
qed

lemma legal_valid:
  assumes wf: "validBounds mn mx"
    and y: "getFullYear mn \<le> y" "y \<le> getFullYear mx"
    and m: "m \<in> set (buildMonthList mn mx (Some y))"
    and d: "d \<in> set (buildDayList mn mx (Some y) (Some m))"
    and s: "selectedYear st = Some y" "selectedMonth st = Some m" "selectedDay st = Some d"
  shows "selectedDateValid mn mx st"
proof -
  from m have mr: "(if y = getFullYear mn then getMonth mn + 1 else 1) \<le> m"
      "m \<le> (if y = getFullYear mx then getMonth mx + 1 else 12)"
    unfolding months_in_range(1) [OF wf y] by simp_all
  from d have dr: "(if y = getFullYear mn \<and> m = getMonth mn + 1 then getDate mn else 1) \<le> d"
      "d \<le> (if y = getFullYear mx \<and> m = getMonth mx + 1 then getDate mx
             else lastDateOfMonth y m)"
    unfolding days_in_range(1) [OF wf y m] by simp_all
  from wf have v: "0 \<le> getMonth mn" "getMonth mx \<le> 11" "1 \<le> getDate mn"
    by (simp_all add: validBounds_def validDate_def)
  from wf have vx: "getDate mx \<le> daysInMonth (getFullYear mx) (getMonth mx + 1)"
    by (simp add: validBounds_def validDate_def)
  have m12: "1 \<le> m" "m \<le> 12"
    using mr v by (auto split: if_splits)
  have t: "lastDateOfMonth y m \<le> daysInMonth y m"
    using m12 by (rule lastDateOfMonth_le)
  from vx have tx: "y = getFullYear mx \<and> m = getMonth mx + 1 \<longrightarrow> getDate mx \<le> daysInMonth y m"
    by simp
  have "(getFullYear mn < y \<or> (getFullYear mn = y \<and>
          (getMonth mn + 1 < m \<or> (getMonth mn + 1 = m \<and> getDate mn \<le> d)))) \<and>
        (y < getFullYear mx \<or> (y = getFullYear mx \<and>
          (m < getMonth mx + 1 \<or> (m = getMonth mx + 1 \<and> d \<le> getDate mx)))) \<and>
        1 \<le> m \<and> m \<le> 12 \<and> 1 \<le> d \<and> d \<le> daysInMonth y m"
    using y mr dr v t tx by (rule valid_arith)
  then show ?thesis
    by (simp add: selectedDateValid_def s calendarLe_def calendarDate_def)
qed

lemma valid_year_month:
  assumes wf: "validBounds mn mx" and v: "selectedDateValid mn mx st"
  obtains y m d where "selectedYear st = Some y" "selectedMonth st = Some m"
    "selectedDay st = Some d" "getFullYear mn \<le> y" "y \<le> getFullYear mx"
    "m \<in> set (buildMonthList mn mx (Some y))"
proof -
  from v obtain y m d where s: "selectedYear st = Some y" "selectedMonth st = Some m"
      "selectedDay st = Some d"
    and c: "calendarLe (calendarDate mn) (y, m, d)" "calendarLe (y, m, d) (calendarDate mx)"
      "1 \<le> m" "m \<le> 12"
    by (auto simp add: selectedDateValid_def split: option.splits)
  from c(1) have lo: "getFullYear mn < y \<or> (getFullYear mn = y \<and> getMonth mn + 1 \<le> m)"
    by (auto simp add: calendarLe_def calendarDate_def)
  from c(2) have hi: "y < getFullYear mx \<or> (y = getFullYear mx \<and> m \<le> getMonth mx + 1)"
    by (auto simp add: calendarLe_def calendarDate_def)
  from lo hi have y: "getFullYear mn \<le> y" "y \<le> getFullYear mx" by linarith+
  have "(if y = getFullYear mn then getMonth mn + 1 else 1) \<le> m"
    using lo c(3) by auto
  moreover have "m \<le> (if y = getFullYear mx then getMonth mx + 1 else 12)"
    using hi c(4) by auto
  ultimately have "m \<in> set (buildMonthList mn mx (Some y))"
    unfolding months_in_range(1) [OF wf y] by simp
  with s y show ?thesis by (rule that)
qed

lemma js_includes_Some: "js_includes xs v \<longleftrightarrow> (\<exists>x. v = Some x \<and> x \<in> set xs)"
  by (cases v) (simp_all add: js_includes_def)

lemma inLists_valid:
  assumes wf: "validBounds mn mx" and l: "selectionInLists mn mx st"
  shows "selectedDateValid mn mx st"
proof -
  from l obtain y m d where s: "selectedYear st = Some y" "selectedMonth st = Some m"
      "selectedDay st = Some d"
    and i: "y \<in> set (buildYearList mn mx)" "m \<in> set (buildMonthList mn mx (Some y))"
      "d \<in> set (buildDayList mn mx (Some y) (Some m))"
    unfolding selectionInLists_def js_includes_Some by auto
  from i(1) have y: "getFullYear mn \<le> y" "y \<le> getFullYear mx"
    by (simp_all add: set_buildYearList)
  show ?thesis using wf y i(2,3) s by (rule legal_valid)
qed

lemma js_index_clamp:
  assumes "xs \<noteq> []"
  shows "\<exists>v. js_index xs (clampIndex xs i) = Some v \<and> v \<in> set xs"
proof -
  from assms have "0 < length xs" by simp
  then have "0 \<le> clampIndex xs i" "clampIndex xs i < int (length xs)"
    by (simp_all add: clampIndex_def)
  then show ?thesis by (simp add: js_index_def)
qed

lemma js_index_ends:
  assumes "xs \<noteq> []"
  shows "\<exists>v. js_index xs 0 = Some v \<and> v \<in> set xs"
    and "\<exists>v. js_index xs (int (length xs) - 1) = Some v \<and> v \<in> set xs"
proof -
  from assms have l: "0 < length xs" by simp
  then show "\<exists>v. js_index xs 0 = Some v \<and> v \<in> set xs"
    by (simp add: js_index_def)
  from l have "nat (int (length xs) - 1) < length xs" by linarith
  then have "xs ! nat (int (length xs) - 1) \<in> set xs" by (rule nth_mem)
  with l show "\<exists>v. js_index xs (int (length xs) - 1) = Some v \<and> v \<in> set xs"
    by (simp add: js_index_def)
qed

lemma monthSync_result:
  assumes "visible st" and "\<not> isInitializing st"
    and "buildMonthList mn mx (selectedYear st) \<noteq> []"
  shows "js_includes (buildMonthList mn mx (selectedYear st))
           (case monthSyncEffect mn mx st of Some v \<Rightarrow> v | None \<Rightarrow> selectedMonth st)"
  using assms js_index_ends(1) [OF assms(3)]
  by (auto simp add: monthSyncEffect_def Let_def js_includes_Some)

lemma daySync_result:
  assumes "visible st" and "\<not> isInitializing st"
    and "buildDayList mn mx (selectedYear st) (selectedMonth st) \<noteq> []"
  shows "js_includes (buildDayList mn mx (selectedYear st) (selectedMonth st))
           (case daySyncEffect mn mx st of Some v \<Rightarrow> v | None \<Rightarrow> selectedDay st)"
  using assms js_index_ends [OF assms(3)]
  by (auto simp add: daySyncEffect_def Let_def js_includes_Some)

lemma flushEffects_fields:
  "selectedYear (flushEffects mn mx st) = selectedYear st"
  "visible (flushEffects mn mx st) = visible st"
  "isInitializing (flushEffects mn mx st) = isInitializing st"
  "yearChanged (flushEffects mn mx st) = False"
  "selectedMonth (flushEffects mn mx st) =
     (case (if yearChanged st then monthSyncEffect mn mx st else None) of
        Some v \<Rightarrow> v | None \<Rightarrow> selectedMonth st)"
  "selectedDay (flushEffects mn mx st) =
     (case (if yearChanged st \<or> monthChanged st then daySyncEffect mn mx st else None) of
        Some v \<Rightarrow> v | None \<Rightarrow> selectedDay st)"
  "monthChanged (flushEffects mn mx st)
     = (selectedMonth (flushEffects mn mx st) \<noteq> selectedMonth st)"
  by (simp_all add: flushEffects_def Let_def)

lemma validBounds_years:
  assumes "validBounds mn mx"
  shows "getFullYear mn \<le> getFullYear mx"
proof -
  from assms have "calendarLe (calendarDate mn) (calendarDate mx)"
    by (simp add: validBounds_def)
  then show ?thesis
    unfolding calendarLe_dates by (rule lex_year)
qed

lemma years_nonempty:
  assumes "validBounds mn mx"
  shows "buildYearList mn mx \<noteq> []"
  using validBounds_years [OF assms] by (simp add: buildYearList_def arrayFrom_upto)

lemma months_nonempty:
  assumes wf: "validBounds mn mx"
    and y: "js_includes (buildYearList mn mx) year"
  shows "buildMonthList mn mx year \<noteq> []"
proof -
  from y obtain y' where e: "year = Some y'" and r: "getFullYear mn \<le> y'" "y' \<le> getFullYear mx"
    by (auto simp add: js_includes_Some set_buildYearList)
  show ?thesis
    unfolding e months_in_range(1) [OF wf r] using months_in_range(2) [OF wf r] by simp
qed

lemma days_nonempty:
  assumes wf: "validBounds mn mx"
    and y: "js_includes (buildYearList mn mx) year"
    and m: "js_includes (buildMonthList mn mx year) month"
  shows "buildDayList mn mx year month \<noteq> []"
proof -
  from y obtain y' where e: "year = Some y'" and r: "getFullYear mn \<le> y'" "y' \<le> getFullYear mx"
    by (auto simp add: js_includes_Some set_buildYearList)
  from m e obtain m' where f: "month = Some m'" and i: "m' \<in> set (buildMonthList mn mx (Some y'))"
    by (auto simp add: js_includes_Some)
  show ?thesis
    unfolding e f days_in_range(1) [OF wf r i] using days_in_range(2) [OF wf r i] by simp
qed

lemma flush_month_changed:
  assumes wf: "validBounds mn mx"
    and i: "visible st" "\<not> isInitializing st"
    and c: "\<not> yearChanged st" "monthChanged st"
    and y: "js_includes (buildYearList mn mx) (selectedYear st)"
    and m: "js_includes (buildMonthList mn mx (selectedYear st)) (selectedMonth st)"
  shows "selectionInLists mn mx (flushEffects mn mx st)"
    and "\<not> monthChanged (flushEffects mn mx st)"
proof -
  have e: "selectedMonth (flushEffects mn mx st) = selectedMonth st"
    using c by (simp add: flushEffects_fields)
  then show "\<not> monthChanged (flushEffects mn mx st)"
    by (simp add: flushEffects_fields(7))
  have "js_includes (buildDayList mn mx (selectedYear st) (selectedMonth st))
          (selectedDay (flushEffects mn mx st))"
    using c daySync_result [OF i days_nonempty [OF wf y m]]
    by (simp add: flushEffects_fields)
  with y m e show "selectionInLists mn mx (flushEffects mn mx st)"
    by (simp add: selectionInLists_def flushEffects_fields(1))
qed

lemma flush_year_changed:
  assumes wf: "validBounds mn mx"
    and i: "visible st" "\<not> isInitializing st"
    and c: "yearChanged st"
    and y: "js_includes (buildYearList mn mx) (selectedYear st)"
  shows "js_includes (buildMonthList mn mx (selectedYear st))
           (selectedMonth (flushEffects mn mx st))"
    and "\<not> monthChanged (flushEffects mn mx st)
         \<Longrightarrow> selectionInLists mn mx (flushEffects mn mx st)"
proof -
  show m: "js_includes (buildMonthList mn mx (selectedYear st))
           (selectedMonth (flushEffects mn mx st))"
    using c monthSync_result [OF i months_nonempty [OF wf y]]
    by (simp add: flushEffects_fields)
  assume "\<not> monthChanged (flushEffects mn mx st)"
  then have e: "selectedMonth (flushEffects mn mx st) = selectedMonth st"
    by (simp add: flushEffects_fields(7))
  with m have m': "js_includes (buildMonthList mn mx (selectedYear st)) (selectedMonth st)"
    by simp
  have "js_includes (buildDayList mn mx (selectedYear st) (selectedMonth st))
          (selectedDay (flushEffects mn mx st))"
    using c daySync_result [OF i days_nonempty [OF wf y m']]
    by (simp add: flushEffects_fields)
  with y m' e show "selectionInLists mn mx (flushEffects mn mx st)"
    by (simp add: selectionInLists_def flushEffects_fields(1))
qed

lemma settle_reaches:
  assumes wf: "validBounds mn mx"
    and i: "visible st" "\<not> isInitializing st"
    and y: "js_includes (buildYearList mn mx) (selectedYear st)"
    and r: "yearChanged st \<or>
            (js_includes (buildMonthList mn mx (selectedYear st)) (selectedMonth st) \<and>
             (monthChanged st \<or> selectionInLists mn mx st))"
  shows "\<exists>st'. settle 3 mn mx st = Some st' \<and> selectionInLists mn mx st' \<and> idleSettled st'"
proof (cases "yearChanged st")
  case True
  let ?s1 = "flushEffects mn mx st"
  have i1: "visible ?s1" "\<not> isInitializing ?s1" "\<not> yearChanged ?s1"
    using i by (simp_all add: flushEffects_fields)
  have y1: "js_includes (buildYearList mn mx) (selectedYear ?s1)"
    using y by (simp add: flushEffects_fields)
  have m1: "js_includes (buildMonthList mn mx (selectedYear ?s1)) (selectedMonth ?s1)"
    using flush_year_changed(1) [OF wf i True y] by (simp add: flushEffects_fields(1))
  show ?thesis
  proof (cases "monthChanged ?s1")
    case False
    then have "settle 3 mn mx st = Some ?s1"
      using True i1 by (simp add: numeral_3_eq_3)
    moreover have "selectionInLists mn mx ?s1"
      using False by (rule flush_year_changed(2) [OF wf i True y])
    ultimately show ?thesis using i1 False by (simp add: idleSettled_def)
  next
    case c: True
    let ?s2 = "flushEffects mn mx ?s1"
    have "\<not> monthChanged ?s2" "selectionInLists mn mx ?s2"
      using flush_month_changed [OF wf i1(1,2) i1(3) c y1 m1] by simp_all
    moreover have "visible ?s2" "\<not> isInitializing ?s2" "\<not> yearChanged ?s2"
      using i1 by (simp_all add: flushEffects_fields)
    moreover from this calculation have "settle 3 mn mx st = Some ?s2"
      using True c by (simp add: numeral_3_eq_3)
    ultimately show ?thesis by (simp add: idleSettled_def)
  qed
next
  case False
  with r have m: "js_includes (buildMonthList mn mx (selectedYear st)) (selectedMonth st)"
    and d: "monthChanged st \<or> selectionInLists mn mx st" by simp_all
  show ?thesis
  proof (cases "monthChanged st")
    case True
    let ?s1 = "flushEffects mn mx st"
    have "\<not> monthChanged ?s1" "selectionInLists mn mx ?s1"
      using flush_month_changed [OF wf i False True y m] by simp_all
    moreover have "visible ?s1" "\<not> isInitializing ?s1" "\<not> yearChanged ?s1"
      using i by (simp_all add: flushEffects_fields)
    moreover from this calculation have "settle 3 mn mx st = Some ?s1"
      using False True by (simp add: numeral_3_eq_3)
    ultimately show ?thesis by (simp add: idleSettled_def)
  next
    case nm: False
    with d have "selectionInLists mn mx st" by simp
    moreover have "settle 3 mn mx st = Some st"
      using False nm by (simp add: numeral_3_eq_3)
    ultimately show ?thesis using i False nm by (simp add: idleSettled_def)
  qed
qed





lemma applySelection_settles:
  assumes wf: "validBounds mn mx"
    and v: "selectedDateValid mn mx st" and i: "idleSettled st"
  shows "\<exists>st'. settle 3 mn mx (applySelectionFromIndex mn mx col index st) = Some st' \<and>
           selectedDateValid mn mx st' \<and> idleSettled st'"
proof (cases "applySelectionFromIndex mn mx col index st = st")
  case True
  from i have "settle 3 mn mx st = Some st"
    by (simp add: idleSettled_def numeral_3_eq_3)
  with True v i show ?thesis by simp
next
  case False
  let ?s = "applySelectionFromIndex mn mx col index st"
  from wf v obtain y m d where s: "selectedYear st = Some y" "selectedMonth st = Some m"
      "selectedDay st = Some d"
    and yr: "getFullYear mn \<le> y" "y \<le> getFullYear mx"
    and mi: "m \<in> set (buildMonthList mn mx (Some y))"
    by (rule valid_year_month)
  from yr have iy: "js_includes (buildYearList mn mx) (Some y)"
    by (simp add: js_includes_def set_buildYearList)
  from mi have im: "js_includes (buildMonthList mn mx (Some y)) (Some m)"
    by (simp add: js_includes_def)
  from i have id: "visible st" "\<not> isInitializing st" "\<not> yearChanged st" "\<not> monthChanged st"
    by (simp_all add: idleSettled_def)
  have "\<exists>st'. settle 3 mn mx ?s = Some st' \<and> selectionInLists mn mx st' \<and> idleSettled st'"
  proof (cases col)
    case YearColumn
    obtain y' where c: "js_index (buildYearList mn mx) (clampIndex (buildYearList mn mx) index)
        = Some y'" and y': "y' \<in> set (buildYearList mn mx)"
      using js_index_clamp [OF years_nonempty [OF wf]] by blast
    from False have e: "?s = st\<lparr>selectedYear := Some y', yearChanged := True\<rparr>"
      by (simp add: applySelectionFromIndex_def columnValues_def YearColumn c Let_def
          split: if_splits)
    show ?thesis
      unfolding e using id y'
      by (intro settle_reaches [OF wf]) (simp_all add: js_includes_def)
  next
    case MonthColumn
    have ne: "buildMonthList mn mx (selectedYear st) \<noteq> []"
      using wf iy unfolding s by (rule months_nonempty)
    obtain m' where c: "js_index (buildMonthList mn mx (selectedYear st))
        (clampIndex (buildMonthList mn mx (selectedYear st)) index) = Some m'"
      and m': "m' \<in> set (buildMonthList mn mx (selectedYear st))"
      using js_index_clamp [OF ne] by blast
    from False have e: "?s = st\<lparr>selectedMonth := Some m', monthChanged := True\<rparr>"
      by (simp add: applySelectionFromIndex_def columnValues_def MonthColumn c Let_def
          split: if_splits)
    show ?thesis
      unfolding e using id iy m' s(1)
      by (intro settle_reaches [OF wf]) (simp_all add: js_includes_def)
  next
    case DayColumn
    have ne: "buildDayList mn mx (selectedYear st) (selectedMonth st) \<noteq> []"
      using wf iy im unfolding s by (rule days_nonempty)
    obtain d' where c: "js_index (buildDayList mn mx (selectedYear st) (selectedMonth st))
        (clampIndex (buildDayList mn mx (selectedYear st) (selectedMonth st)) index) = Some d'"
      and d': "d' \<in> set (buildDayList mn mx (selectedYear st) (selectedMonth st))"
      using js_index_clamp [OF ne] by blast
    from False have e: "?s = st\<lparr>selectedDay := Some d'\<rparr>"
      by (simp add: applySelectionFromIndex_def columnValues_def DayColumn c Let_def
          split: if_splits)
    show ?thesis
      unfolding e using id iy im d' s
      by (intro settle_reaches [OF wf]) (simp_all add: js_includes_def selectionInLists_def)
  qed
  then show ?thesis using inLists_valid [OF wf] by blast
qed

text \<open>
  C1 against the code. With \<open>minDate\<close> 1945-01-01 and \<open>effectiveMaxDate\<close> 2024-06-15 the
  selection is 2023-12-25 and the user taps 2024 in the year column. The month sync
  effect moves the month to 1, the first legal month. The day sync effect of the same
  pass still reads month 12, whose day list for 2024 is empty, and sets the day to
  \<open>undefined\<close>; the next pass sets it to 1. Day 25 is in the day list of January 2024,
  so the day was legal for the month the selection ends in and is moved all the same.
\<close>

theorem year_change_resets_legal_day:
  "handleItemPress defaultMinDate exampleToday YearColumn 79 exampleDecemberState
     = exampleDecemberState\<lparr>selectedYear := Some 2024, yearChanged := True\<rparr> \<and>
   flushEffects defaultMinDate exampleToday
       (exampleDecemberState\<lparr>selectedYear := Some 2024, yearChanged := True\<rparr>)
     = exampleDecemberState\<lparr>selectedYear := Some 2024, selectedMonth := Some 1,
         selectedDay := None, monthChanged := True\<rparr> \<and>
   settle 3 defaultMinDate exampleToday
       (exampleDecemberState\<lparr>selectedYear := Some 2024, yearChanged := True\<rparr>)
     = Some (exampleDecemberState\<lparr>selectedYear := Some 2024, selectedMonth := Some 1,
         selectedDay := Some 1\<rparr>) \<and>
   js_includes (buildDayList defaultMinDate exampleToday (Some 2024) (Some 1)) (Some 25)"
  by code_simp

text \<open>
  C10 against the code. The sync effects index their lists without an empty-list check.
  In the state above the day list is empty, the day sync effect reads its last and first
  entries, both \<open>undefined\<close>, and calls \<open>setSelectedDay(undefined)\<close>. With \<open>minDate\<close>
  2024-09-01 after \<open>effectiveMaxDate\<close> 2024-06-15, the month list of 2024 is empty and the
  month sync effect calls \<open>setSelectedMonth(undefined)\<close>.
\<close>

theorem sync_effects_read_empty_lists:
  "buildDayList defaultMinDate exampleToday (Some 2024) (Some 12) = [] \<and>
   js_index (buildDayList defaultMinDate exampleToday (Some 2024) (Some 12)) 0 = None \<and>
   daySyncEffect defaultMinDate exampleToday
       (exampleDecemberState\<lparr>selectedYear := Some 2024, yearChanged := True\<rparr>)
     = Some None \<and>
   buildMonthList exampleLaterMinDate exampleToday (Some 2024) = [] \<and>
   monthSyncEffect exampleLaterMinDate exampleToday
       (exampleDecemberState\<lparr>selectedYear := Some 2024, yearChanged := True\<rparr>)
     = Some None"
  by code_simp

section \<open>The seeded selection against the bounds\<close>

lemma nth_last_upto:
  fixes lo :: int
  assumes "lo \<le> hi"
  shows "[lo..hi] ! (length [lo..hi] - 1) = hi"
proof -
  have l: "length [lo..hi] - 1 = nat (hi - lo)" using assms by simp
  have "lo + int (nat (hi - lo)) \<le> hi" using assms by simp
  then have "[lo..hi] ! nat (hi - lo) = lo + int (nat (hi - lo))" by (rule nth_upto)
  with l assms show ?thesis by simp
qed

lemma last_upto_int:
  fixes lo :: int
  assumes "lo \<le> hi"
  shows "last [lo..hi] = hi"
proof -
  from assms have "[lo..hi] \<noteq> []" by simp
  then have "last [lo..hi] = [lo..hi] ! (length [lo..hi] - 1)" by (rule last_conv_nth)
  with nth_last_upto [OF assms] show ?thesis by simp
qed

lemma seed_day_clamped:
  assumes y: "getFullYear mn \<le> getFullYear f" "getFullYear f \<le> getFullYear mx"
    and m: "(if getFullYear f = getFullYear mn then getMonth mn + 1 else 1) \<le> getMonth f + 1"
           "getMonth f + 1 \<le> (if getFullYear f = getFullYear mx then getMonth mx + 1 else 12)"
    and ds: "buildDayList mn mx (Some (getFullYear f)) (Some (getMonth f + 1)) = [lo..hi]"
    and d: "lo \<le> getDate f" "lo \<le> hi"
    and f: "(if date_less (if date_greater d0 mx then mx else d0) mn then mn
             else (if date_greater d0 mx then mx else d0)) = f"
  shows "initializeSelection mn mx t (Some d0) =
           (getFullYear f, getMonth f + 1, if getDate f \<le> hi then getDate f else hi)"
proof -
  have cy: "max (getFullYear mn) (min (getFullYear f) (getFullYear mx)) = getFullYear f"
    using y by simp
  have ms: "buildMonthList mn mx (Some (getFullYear f)) =
      [(if getFullYear f = getFullYear mn then getMonth mn + 1 else 1) ..
       (if getFullYear f = getFullYear mx then getMonth mx + 1 else 12)]"
    using y by (simp add: buildMonthList_Some)
  have mi: "js_includes (buildMonthList mn mx (Some (getFullYear f))) (Some (getMonth f + 1))"
    unfolding ms js_includes_def using m by simp
  have ml: "0 < length (buildMonthList mn mx (Some (getFullYear f)))"
    using mi by (auto simp add: js_includes_def)
  define xs where "xs = [lo..hi]"
  have di: "js_includes xs (Some (getDate f)) \<longleftrightarrow> getDate f \<le> hi"
    unfolding js_includes_def xs_def using d by simp
  have dl: "0 < length xs" unfolding xs_def using d(2) by simp
  have la: "xs ! (length xs - 1) = hi" unfolding xs_def using d(2) by (rule nth_last_upto)
  have ds': "buildDayList mn mx (Some (getFullYear f)) (Some (getMonth f + 1)) = xs"
    unfolding xs_def by (rule ds)
  show ?thesis
    unfolding initializeSelection_def Let_def option.case f cy
    using mi ml di dl la by (simp add: ds')
qed

text \<open>
  C7, as stated, fails. Today is 2024-06-15 and no \<open>maxDate\<close> is passed, so
  \<open>effectiveMaxDate\<close> is 2024-06-15.
  \<^item> With \<open>minDate\<close> 2024-09-01, later than \<open>effectiveMaxDate\<close>, the month list of 2024 is
    empty and the seeded selection is 2024-01-01 both for the \<open>initialDate\<close> 2024-06-20,
    later than \<open>effectiveMaxDate\<close>, and for the \<open>initialDate\<close> 2024-02-29, earlier than
    \<open>minDate\<close>: it is neither \<open>effectiveMaxDate\<close> nor \<open>minDate\<close>.
  \<^item> With \<open>minDate\<close> 0000-02-29, a valid Date earlier than \<open>effectiveMaxDate\<close>, and the
    earlier \<open>initialDate\<close> 0000-01-01 the day list of February of year 0 is empty and the
    seeded selection is 0000-02-01, not \<open>minDate\<close>.
\<close>

theorem initializeSelection_counterexample:
  "date_greater exampleLaterMinDate exampleToday \<and>
   date_greater exampleLateDate exampleToday \<and>
   initializeSelection exampleLaterMinDate exampleToday exampleToday (Some exampleLateDate)
     = (2024, 1, 1) \<and>
   date_less exampleLeapDay exampleLaterMinDate \<and>
   initializeSelection exampleLaterMinDate exampleToday exampleToday (Some exampleLeapDay)
     = (2024, 1, 1) \<and>
   calendarDate exampleToday = (2024, 6, 15) \<and>
   calendarDate exampleLaterMinDate = (2024, 9, 1) \<and>
   validDate exampleYearZeroLeapDay \<and> validDate exampleToday \<and>
   calendarLe (calendarDate exampleYearZeroLeapDay) (calendarDate exampleToday) \<and>
   date_less exampleYearZeroMinDate exampleYearZeroLeapDay \<and>
   buildDayList exampleYearZeroLeapDay exampleToday (Some 0) (Some 2) = [] \<and>
   initializeSelection exampleYearZeroLeapDay exampleToday exampleToday
     (Some exampleYearZeroMinDate) = (0, 2, 1) \<and>
   calendarDate exampleYearZeroLeapDay = (0, 2, 29)"
proof -
  have l: "lastDateOfMonth 0 2 = 28" "lastDateOfMonth 2024 1 = 31"
    by (simp_all add: lastDateOfMonth_eq constructorYear_def legacyYear_def daysInMonth_def
        leapYear_def)
  have d: "buildDayList exampleYearZeroLeapDay exampleToday (Some 0) (Some 2) = []"
    "buildDayList exampleLaterMinDate exampleToday (Some 2024) (Some 1) = [1..31]"
    by (simp_all add: buildDayList_Some l exampleYearZeroLeapDay_def exampleToday_def
        exampleLaterMinDate_def)
  have m: "buildMonthList exampleLaterMinDate exampleToday (Some 2024) = []"
    "buildMonthList exampleYearZeroLeapDay exampleToday (Some 0) = [2..12]"
    by (simp_all add: buildMonthList_Some exampleYearZeroLeapDay_def exampleToday_def
        exampleLaterMinDate_def)
  have c: "date_greater exampleLaterMinDate exampleToday"
    "date_greater exampleLateDate exampleToday"
    "date_less exampleLeapDay exampleLaterMinDate"
    "date_less exampleToday exampleLaterMinDate"
    "\<not> date_greater exampleLeapDay exampleToday"
    "date_less exampleYearZeroMinDate exampleYearZeroLeapDay"
    "\<not> date_greater exampleYearZeroMinDate exampleToday"
    by (simp_all add: date_greater_def date_less_def exampleLaterMinDate_def exampleToday_def
        exampleLateDate_def exampleLeapDay_def exampleYearZeroMinDate_def
        exampleYearZeroLeapDay_def)
  have f: "getFullYear exampleLaterMinDate = 2024" "getMonth exampleLaterMinDate = 8"
    "getDate exampleLaterMinDate = 1" "getFullYear exampleToday = 2024"
    "getFullYear exampleYearZeroLeapDay = 0" "getMonth exampleYearZeroLeapDay = 1"
    "getDate exampleYearZeroLeapDay = 29"
    by (simp_all add: exampleLaterMinDate_def exampleToday_def exampleYearZeroLeapDay_def)
  have s1: "initializeSelection exampleLaterMinDate exampleToday exampleToday
      (Some exampleLateDate) = (2024, 1, 1)"
    unfolding initializeSelection_def Let_def option.case
    by (simp add: c f m d js_includes_def)
  have s2: "initializeSelection exampleLaterMinDate exampleToday exampleToday
      (Some exampleLeapDay) = (2024, 1, 1)"
    unfolding initializeSelection_def Let_def option.case
    by (simp add: c f m d js_includes_def)
  have s3: "initializeSelection exampleYearZeroLeapDay exampleToday exampleToday
      (Some exampleYearZeroMinDate) = (0, 2, 1)"
    unfolding initializeSelection_def Let_def option.case
    by (simp add: c f m d js_includes_def)
  have v: "validDate exampleYearZeroLeapDay" "validDate exampleToday"
    by (simp_all add: validDate_def representableYear_def exampleYearZeroLeapDay_def
        exampleToday_def daysInMonth_def leapYear_def)
  have k: "calendarDate exampleToday = (2024, 6, 15)"
    "calendarDate exampleLaterMinDate = (2024, 9, 1)"
    "calendarDate exampleYearZeroLeapDay = (0, 2, 29)"
    by (simp_all add: calendarDate_def exampleToday_def exampleLaterMinDate_def
        exampleYearZeroLeapDay_def)
  have e: "calendarLe (calendarDate exampleYearZeroLeapDay) (calendarDate exampleToday)"
    unfolding k by (simp add: calendarLe_def)
  from c(1,2,3) s1 s2 s3 v k e c(6) d(1) show ?thesis by simp
qed

text \<open>
  C7, amended. Let the bounds form a range: \<open>minDate\<close> and \<open>effectiveMaxDate\<close> are valid
  Dates, \<open>minDate\<close> is not after \<open>effectiveMaxDate\<close> as a calendar date, and \<open>minDate\<close> is
  not 0000-02-29. Then the selection seeded when the dialog becomes visible is
  \<open>effectiveMaxDate\<close> for every \<open>initialDate\<close> later than \<open>effectiveMaxDate\<close>, and \<open>minDate\<close>
  for every \<open>initialDate\<close> earlier than \<open>minDate\<close>. For a valid \<open>initialDate\<close> inside the
  range the year and the month are kept and the day list of that month is not empty;
  the day is kept when it is in the day list, and otherwise it is greater than the last
  entry and the last entry is seeded. The day is in the list for every \<open>initialDate\<close>
  outside year 0.
\<close>

theorem initializeSelection_clamps:
  assumes wf: "validBounds minDate effMaxDate"
  shows
    "(date_greater d effMaxDate \<longrightarrow>
        initializeSelection minDate effMaxDate todayDate (Some d) = calendarDate effMaxDate) \<and>
     (date_less d minDate \<longrightarrow>
        initializeSelection minDate effMaxDate todayDate (Some d) = calendarDate minDate) \<and>
     (\<not> date_greater d effMaxDate \<and> \<not> date_less d minDate \<and> validDate d \<longrightarrow>
        buildDayList minDate effMaxDate (Some (getFullYear d)) (Some (getMonth d + 1)) \<noteq> [] \<and>
        initializeSelection minDate effMaxDate todayDate (Some d) =
          (getFullYear d, getMonth d + 1,
           if getDate d \<in> set (buildDayList minDate effMaxDate (Some (getFullYear d))
                                 (Some (getMonth d + 1)))
           then getDate d
           else last (buildDayList minDate effMaxDate (Some (getFullYear d))
                        (Some (getMonth d + 1)))) \<and>
        (getDate d \<notin> set (buildDayList minDate effMaxDate (Some (getFullYear d))
                             (Some (getMonth d + 1)))
           \<longrightarrow> last (buildDayList minDate effMaxDate (Some (getFullYear d))
                        (Some (getMonth d + 1))) < getDate d) \<and>
        (getFullYear d \<noteq> 0
           \<longrightarrow> getDate d \<in> set (buildDayList minDate effMaxDate (Some (getFullYear d))
                                   (Some (getMonth d + 1)))))"
proof -
  from wf have mn: "validDate minDate" and mx: "validDate effMaxDate"
    and le: "calendarLe (calendarDate minDate) (calendarDate effMaxDate)"
    and t0: "getDate minDate \<le> lastDateOfMonth (getFullYear minDate) (getMonth minDate + 1)"
    by (simp_all add: validBounds_def)
  have seed_min: "initializeSelection minDate effMaxDate todayDate (Some d) = calendarDate minDate"
    if "(if date_less (if date_greater d effMaxDate then effMaxDate else d) minDate then minDate
         else (if date_greater d effMaxDate then effMaxDate else d)) = minDate"
    using mn calendarLe_refl le t0 that
    by (rule seed_calendar_range)
  have c1: "initializeSelection minDate effMaxDate todayDate (Some d) = calendarDate effMaxDate"
    if g: "date_greater d effMaxDate"
  proof (cases "date_less effMaxDate minDate")
    case True
    then have "calendarLe (calendarDate effMaxDate) (calendarDate minDate)"
      unfolding calendarLe_dates date_less_def by linarith
    with le have e: "calendarDate minDate = calendarDate effMaxDate"
      by (rule calendarLe_antisym)
    from g True have "initializeSelection minDate effMaxDate todayDate (Some d)
        = calendarDate minDate"
      by (intro seed_min) simp
    with e show ?thesis by simp
  next
    case False
    from g False have e: "(if date_less (if date_greater d effMaxDate then effMaxDate else d)
          minDate then minDate
        else (if date_greater d effMaxDate then effMaxDate else d)) = effMaxDate"
      by simp
    show ?thesis
      by (rule seed_effMaxDate [OF mn mx le e])
  qed
  have c2: "initializeSelection minDate effMaxDate todayDate (Some d) = calendarDate minDate"
    if l: "date_less d minDate"
  proof -
    have "(if date_less (if date_greater d effMaxDate then effMaxDate else d) minDate
           then minDate else (if date_greater d effMaxDate then effMaxDate else d)) = minDate"
      using l date_less_trans [of effMaxDate d minDate] by (auto simp add: date_greater_def)
    then show ?thesis by (rule seed_min)
  qed
  have c3: "buildDayList minDate effMaxDate (Some (getFullYear d)) (Some (getMonth d + 1)) \<noteq> [] \<and>
        initializeSelection minDate effMaxDate todayDate (Some d) =
          (getFullYear d, getMonth d + 1,
           if getDate d \<in> set (buildDayList minDate effMaxDate (Some (getFullYear d))
                                 (Some (getMonth d + 1)))
           then getDate d
           else last (buildDayList minDate effMaxDate (Some (getFullYear d))
                        (Some (getMonth d + 1)))) \<and>
        (getDate d \<notin> set (buildDayList minDate effMaxDate (Some (getFullYear d))
                             (Some (getMonth d + 1)))
           \<longrightarrow> last (buildDayList minDate effMaxDate (Some (getFullYear d))
                        (Some (getMonth d + 1))) < getDate d) \<and>
        (getFullYear d \<noteq> 0
           \<longrightarrow> getDate d \<in> set (buildDayList minDate effMaxDate (Some (getFullYear d))
                                   (Some (getMonth d + 1))))"
    if a: "\<not> date_greater d effMaxDate \<and> \<not> date_less d minDate \<and> validDate d"
  proof -
    from a have r: "\<not> date_greater d effMaxDate \<and> \<not> date_less d minDate"
      and d: "validDate d" by simp_all
    from r have e: "(if date_less (if date_greater d effMaxDate then effMaxDate else d) minDate
           then minDate else (if date_greater d effMaxDate then effMaxDate else d)) = d"
      by simp
    from r have lo: "calendarLe (calendarDate minDate) (calendarDate d)"
      by (simp add: not_date_less_calendarLe)
    from r have hi: "calendarLe (calendarDate d) (calendarDate effMaxDate)"
      by (simp add: not_date_less_calendarLe date_greater_def)
    note lo' = lo [unfolded calendarLe_dates] and hi' = hi [unfolded calendarLe_dates]
    from d have v: "0 \<le> getMonth d" "getMonth d \<le> 11" "1 \<le> getDate d"
      by (simp_all add: validDate_def)
    have y: "getFullYear minDate \<le> getFullYear d" "getFullYear d \<le> getFullYear effMaxDate"
      using lo' apply (rule lex_year)
      using hi' apply (rule lex_year)
      done
    have m: "(if getFullYear d = getFullYear minDate then getMonth minDate + 1 else 1)
               \<le> getMonth d + 1"
      "getMonth d + 1 \<le> (if getFullYear d = getFullYear effMaxDate
                            then getMonth effMaxDate + 1 else 12)"
      using lo' v(1) apply (rule lex_month_lo)
      using hi' v(2) apply (rule lex_month_hi)
      done
    have mi: "getMonth d + 1 \<in> set (buildMonthList minDate effMaxDate (Some (getFullYear d)))"
      unfolding months_in_range(1) [OF wf y] using m by simp
    define lo where "lo = (if getFullYear d = getFullYear minDate \<and>
        getMonth d + 1 = getMonth minDate + 1 then getDate minDate else 1)"
    define hi where "hi = (if getFullYear d = getFullYear effMaxDate \<and>
        getMonth d + 1 = getMonth effMaxDate + 1 then getDate effMaxDate
        else lastDateOfMonth (getFullYear d) (getMonth d + 1))"
    have ds: "buildDayList minDate effMaxDate (Some (getFullYear d)) (Some (getMonth d + 1))
        = [lo..hi]"
      unfolding lo_def hi_def by (rule days_in_range(1) [OF wf y mi])
    have lh: "lo \<le> hi"
      unfolding lo_def hi_def by (rule days_in_range(2) [OF wf y mi])
    have "(if getFullYear d = getFullYear minDate \<and> getMonth d = getMonth minDate
           then getDate minDate else 1) \<le> getDate d"
      using lo' v(3) by (rule lex_day_lo)
    then have ld: "lo \<le> getDate d" by (simp add: lo_def)
    have s: "initializeSelection minDate effMaxDate todayDate (Some d) =
        (getFullYear d, getMonth d + 1, if getDate d \<le> hi then getDate d else hi)"
      using y m ds ld lh e by (rule seed_day_clamped)
    have la: "last [lo..hi] = hi" using lh by (rule last_upto_int)
    have ne: "[lo..hi] \<noteq> []" using lh by simp
    have z: "getDate d \<le> hi" if "getFullYear d \<noteq> 0"
    proof -
      have "getDate d \<le> (if getFullYear d = getFullYear effMaxDate \<and>
          getMonth d = getMonth effMaxDate then getDate effMaxDate
          else lastDateOfMonth (getFullYear d) (getMonth d + 1))"
        using hi' validDate_last [OF d that] by (rule lex_day_hi)
      then show ?thesis by (simp add: hi_def)
    qed
    show ?thesis
      unfolding ds s la using ld ne z by simp
  qed
  from c1 c2 c3 show ?thesis by blast
qed

theorem initializeSelection_clamps_witness:
  "validBounds defaultMinDate exampleToday \<and>
   date_greater exampleLateDate exampleToday \<and>
   initializeSelection defaultMinDate exampleToday exampleToday (Some exampleLateDate)
     = (2024, 6, 15) \<and>
   date_less exampleEarlyDate defaultMinDate \<and>
   initializeSelection defaultMinDate exampleToday exampleToday (Some exampleEarlyDate)
     = (1945, 1, 1) \<and>
   \<not> date_greater exampleLeapDay exampleToday \<and> \<not> date_less exampleLeapDay defaultMinDate \<and>
   validDate exampleLeapDay \<and>
   buildDayList defaultMinDate exampleToday (Some 2024) (Some 2) = [1..29] \<and>
   initializeSelection defaultMinDate exampleToday exampleToday (Some exampleLeapDay)
     = (2024, 2, 29)"
proof -
  have v: "validDate exampleLeapDay" "getFullYear exampleLeapDay \<noteq> 0"
    "getFullYear exampleLeapDay = 2024" "getMonth exampleLeapDay + 1 = 2"
    "getDate exampleLeapDay = 29"
    by (simp_all add: validDate_def representableYear_def exampleLeapDay_def daysInMonth_def
        leapYear_def)
  have c: "date_greater exampleLateDate exampleToday"
    "date_less exampleEarlyDate defaultMinDate"
    "\<not> date_greater exampleLeapDay exampleToday" "\<not> date_less exampleLeapDay defaultMinDate"
    by (simp_all add: date_greater_def date_less_def exampleLateDate_def
        exampleEarlyDate_def exampleLeapDay_def exampleToday_def defaultMinDate_def)
  have r: "calendarDate exampleToday = (2024, 6, 15)" "calendarDate defaultMinDate = (1945, 1, 1)"
    by (simp_all add: calendarDate_def exampleToday_def defaultMinDate_def)
  have l: "buildDayList defaultMinDate exampleToday (Some 2024) (Some 2) = [1..29]"
    by (simp add: buildDayList_Some lastDateOfMonth_eq constructorYear_def legacyYear_def
        daysInMonth_def leapYear_def defaultMinDate_def exampleToday_def)
  note b = example_bounds_valid
  show ?thesis
    using b c r v l
      initializeSelection_clamps [OF b, of exampleLateDate exampleToday]
      initializeSelection_clamps [OF b, of exampleEarlyDate exampleToday]
      initializeSelection_clamps [OF b, of exampleLeapDay exampleToday]
    by simp
qed

section \<open>Example runs of the dialog\<close>

lemma reachable_seededState: "reachable duringInit now props (seededState now props) False"
  unfolding seededState_def by (rule reachable.opened)

text \<open>
  The dialog opens on 2024-02-29 and the user taps 2023 in the year column within the
  initialization window. The sync effects of the next pass return at the latch, nothing
  changes any more, and the window ends: the selection stays at 2023-02-29.
\<close>

lemma stale_state_reachable:
  "reachable True exampleToday exampleLeapProps exampleStaleState False"
proof -
  let ?mn = "minDateOf (minDateProp exampleLeapProps)"
  let ?mx = "effectiveMaxDate exampleToday (maxDateProp exampleLeapProps)"
  define s0 where "s0 = seededState exampleToday exampleLeapProps"
  define s1 where "s1 = handleItemPress ?mn ?mx YearColumn 78 s0"
  define s2 where "s2 = effectPass exampleToday exampleLeapProps s1"
  have r0: "reachable True exampleToday exampleLeapProps s0 False"
    unfolding s0_def by (rule reachable_seededState)
  have l: "78 < int (length (columnValues ?mn ?mx YearColumn s0))"
    unfolding s0_def by code_simp
  have r1: "reachable True exampleToday exampleLeapProps s1 (selectionOf s1 \<noteq> selectionOf s0)"
    by (rule reachable.pressed [OF r0 _ _ _ l s1_def]) simp_all
  have d1: "(selectionOf s1 \<noteq> selectionOf s0) = True"
    unfolding s1_def s0_def by code_simp
  have r2: "reachable True exampleToday exampleLeapProps s2 (selectionOf s2 \<noteq> selectionOf s1)"
    by (rule reachable.passed [OF r1 [unfolded d1] s2_def])
  have d2: "(selectionOf s2 \<noteq> selectionOf s1) = False"
    unfolding s2_def s1_def s0_def by code_simp
  have e: "s2\<lparr>isInitializing := False\<rparr> = exampleStaleState"
    unfolding s2_def s1_def s0_def by code_simp
  from reachable.initialized [OF r2 [unfolded d2]] show ?thesis
    unfolding e .
qed



lemma legacy_state_reachable:
  "reachable False exampleToday exampleLegacyProps exampleLegacyState False"
proof -
  have e: "(seededState exampleToday exampleLegacyProps)\<lparr>isInitializing := False\<rparr>
      = exampleLegacyState"
    by code_simp
  from reachable.initialized [OF reachable_seededState]
  have "reachable False exampleToday exampleLegacyProps
      ((seededState exampleToday exampleLegacyProps)\<lparr>isInitializing := False\<rparr>) False" .
  then show ?thesis unfolding e .
qed

section \<open>Confirm and cancel over one opening of the dialog\<close>

text \<open>
  C9, as stated, fails.
  \<^item> \<open>onDismiss\<close> is not called once per opening. The handlers do not close the dialog, so
    the user can press confirm twice while the parent keeps it visible, and \<open>onConfirm\<close>
    and \<open>onDismiss\<close> are called twice each; when the parent closes the dialog with no
    press no callback is called.
  \<^item> The date passed to \<open>onConfirm\<close> is not always the selected calendar date. In the
    state reached by tapping 2023 on 2024-02-29 within the initialization window the
    selection stays 2023-02-29, and confirm passes 2023-03-01. With \<open>minDate\<close>
    0050-01-01 and the selection 0050-03-10 confirm passes 1950-03-10.
  \<^item> The callbacks are optional props: with none supplied a press calls nothing.
\<close>

theorem handleConfirm_counterexample:
  "cycleEvents allCallbacks
     [(PressConfirm, exampleConfirmState), (PressConfirm, exampleConfirmState)]
     = [ConfirmCalled (Some \<lparr>getFullYear = 2023, getMonth = 1, getDate = 28, msOfDay = 0\<rparr>),
        DismissCalled,
        ConfirmCalled (Some \<lparr>getFullYear = 2023, getMonth = 1, getDate = 28, msOfDay = 0\<rparr>),
        DismissCalled] \<and>
   cycleEvents allCallbacks [] = [] \<and>
   reachable True exampleToday exampleLeapProps exampleStaleState False \<and>
   selectionOf exampleStaleState = (Some 2023, Some 2, Some 29) \<and>
   handleConfirm allCallbacks exampleStaleState
     = [ConfirmCalled (Some \<lparr>getFullYear = 2023, getMonth = 2, getDate = 1, msOfDay = 0\<rparr>),
        DismissCalled] \<and>
   reachable False exampleToday exampleLegacyProps exampleLegacyState False \<and>
   selectionOf exampleLegacyState = (Some 50, Some 3, Some 10) \<and>
   handleConfirm allCallbacks exampleLegacyState
     = [ConfirmCalled (Some \<lparr>getFullYear = 1950, getMonth = 2, getDate = 10, msOfDay = 0\<rparr>),
        DismissCalled] \<and>
   cycleEvents noCallbacks [(PressConfirm, exampleConfirmState)] = []"
proof -
  have "cycleEvents allCallbacks
     [(PressConfirm, exampleConfirmState), (PressConfirm, exampleConfirmState)]
     = [ConfirmCalled (Some \<lparr>getFullYear = 2023, getMonth = 1, getDate = 28, msOfDay = 0\<rparr>),
        DismissCalled,
        ConfirmCalled (Some \<lparr>getFullYear = 2023, getMonth = 1, getDate = 28, msOfDay = 0\<rparr>),
        DismissCalled]"
    by code_simp
  moreover have "cycleEvents allCallbacks [] = []"
    by (simp add: cycleEvents_def)
  moreover have "selectionOf exampleStaleState = (Some 2023, Some 2, Some 29)"
    by (simp add: selectionOf_def exampleStaleState_def)
  moreover have "handleConfirm allCallbacks exampleStaleState
     = [ConfirmCalled (Some \<lparr>getFullYear = 2023, getMonth = 2, getDate = 1, msOfDay = 0\<rparr>),
        DismissCalled]"
    by code_simp
  moreover have "selectionOf exampleLegacyState = (Some 50, Some 3, Some 10)"
    by (simp add: selectionOf_def exampleLegacyState_def)
  moreover have "handleConfirm allCallbacks exampleLegacyState
     = [ConfirmCalled (Some \<lparr>getFullYear = 1950, getMonth = 2, getDate = 10, msOfDay = 0\<rparr>),
        DismissCalled]"
    by code_simp
  moreover have "cycleEvents noCallbacks [(PressConfirm, exampleConfirmState)] = []"
    by code_simp
  ultimately show ?thesis
    using stale_state_reachable legacy_state_reachable by simp
qed

text \<open>
  C9, amended. Let the three callbacks be supplied. Every press of confirm calls
  \<open>onConfirm\<close> once, with \<open>new Date(selectedYear, selectedMonth - 1, selectedDay)\<close>, and
  then \<open>onDismiss\<close> once, and does not call \<open>onCancel\<close>; every press of cancel calls
  \<open>onCancel\<close> once and then \<open>onDismiss\<close> once, and does not call \<open>onConfirm\<close>. So over
  one opening of the dialog the calls are, press by press, exactly one of \<open>onConfirm\<close>
  and \<open>onCancel\<close> followed by \<open>onDismiss\<close>, and \<open>onDismiss\<close> is called as many times as
  there are presses. When the selection is a calendar date (month 1 to 12, a day of
  that month) of a year outside 0 to 99, the date passed to \<open>onConfirm\<close> is that date at
  time zero.
\<close>

theorem cycleEvents_per_press:
  assumes "onConfirm cb" and "onCancel cb" and "onDismiss cb"
  shows
    "cycleEvents cb presses =
       concat (map (\<lambda>ps. [case fst ps of
                            PressConfirm \<Rightarrow>
                              ConfirmCalled
                                (newDate (selectedYear (snd ps))
                                   (map_option (\<lambda>m. m - 1) (selectedMonth (snd ps)))
                                   (selectedDay (snd ps)))
                          | PressCancel \<Rightarrow> CancelCalled,
                          DismissCalled]) presses) \<and>
     length (filter (\<lambda>e. e = DismissCalled) (cycleEvents cb presses)) = length presses \<and>
     length (filter (\<lambda>e. e \<noteq> DismissCalled) (cycleEvents cb presses)) = length presses \<and>
     (selectedYear st = Some y \<and> selectedMonth st = Some m \<and> selectedDay st = Some d \<and>
      1 \<le> m \<and> m \<le> 12 \<and> 1 \<le> d \<and> d \<le> daysInMonth y m \<and> \<not> legacyYear y \<longrightarrow>
        cycleEvents cb [(PressConfirm, st)] =
          [ConfirmCalled
             (Some \<lparr>getFullYear = y, getMonth = m - 1, getDate = d, msOfDay = 0\<rparr>),
           DismissCalled])"
proof (intro conjI impI)
  have p: "pressEvents cb ps =
      [case fst ps of
         PressConfirm \<Rightarrow>
           ConfirmCalled
             (newDate (selectedYear (snd ps))
                (map_option (\<lambda>m. m - 1) (selectedMonth (snd ps)))
                (selectedDay (snd ps)))
       | PressCancel \<Rightarrow> CancelCalled,
       DismissCalled]" for ps
    using assms
    by (cases ps, cases "fst ps")
      (simp_all add: pressEvents_def handleConfirm_def handleCancel_def handleDismiss_def)
  show c: "cycleEvents cb presses =
       concat (map (\<lambda>ps. [case fst ps of
                            PressConfirm \<Rightarrow>
                              ConfirmCalled
                                (newDate (selectedYear (snd ps))
                                   (map_option (\<lambda>m. m - 1) (selectedMonth (snd ps)))
                                   (selectedDay (snd ps)))
                          | PressCancel \<Rightarrow> CancelCalled,
                          DismissCalled]) presses)"
  proof -
    have "pressEvents cb =
        (\<lambda>ps. [case fst ps of
                 PressConfirm \<Rightarrow>
                   ConfirmCalled
                     (newDate (selectedYear (snd ps))
                        (map_option (\<lambda>m. m - 1) (selectedMonth (snd ps)))
                        (selectedDay (snd ps)))
               | PressCancel \<Rightarrow> CancelCalled,
               DismissCalled])"
      by (rule ext) (rule p)
    then show ?thesis unfolding cycleEvents_def by (rule arg_cong)
  qed
  show "length (filter (\<lambda>e. e = DismissCalled) (cycleEvents cb presses)) = length presses"
    unfolding c by (induction presses) (simp_all split: press.splits)
  show "length (filter (\<lambda>e. e \<noteq> DismissCalled) (cycleEvents cb presses)) = length presses"
    unfolding c by (induction presses) (simp_all split: press.splits)
next
  assume a: "selectedYear st = Some y \<and> selectedMonth st = Some m \<and> selectedDay st = Some d \<and>
      1 \<le> m \<and> m \<le> 12 \<and> 1 \<le> d \<and> d \<le> daysInMonth y m \<and> \<not> legacyYear y"
  then have "makeDate y (m - 1) d
      = \<lparr>getFullYear = y, getMonth = m - 1, getDate = d, msOfDay = 0\<rparr>"
    by (intro makeDate_valid) simp_all
  with a assms show "cycleEvents cb [(PressConfirm, st)] =
          [ConfirmCalled
             (Some \<lparr>getFullYear = y, getMonth = m - 1, getDate = d, msOfDay = 0\<rparr>),
           DismissCalled]"
    by (simp add: cycleEvents_def pressEvents_def handleConfirm_def handleDismiss_def
        newDate_def)
qed

theorem cycleEvents_per_press_witness:
  "onConfirm allCallbacks \<and> onCancel allCallbacks \<and> onDismiss allCallbacks \<and>
   cycleEvents allCallbacks [(PressCancel, exampleLeapState), (PressConfirm, exampleConfirmState)]
     = [CancelCalled, DismissCalled,
        ConfirmCalled (Some \<lparr>getFullYear = 2023, getMonth = 1, getDate = 28, msOfDay = 0\<rparr>),
        DismissCalled] \<and>
   cycleEvents allCallbacks [(PressConfirm, exampleConfirmState)]
     = [ConfirmCalled (Some \<lparr>getFullYear = 2023, getMonth = 1, getDate = 28, msOfDay = 0\<rparr>),
        DismissCalled]"
proof -
  have a: "onConfirm allCallbacks" "onCancel allCallbacks" "onDismiss allCallbacks"
    by (simp_all add: allCallbacks_def)
  have n: "newDate (Some 2023) (Some 1) (Some 28)
      = Some \<lparr>getFullYear = 2023, getMonth = 1, getDate = 28, msOfDay = 0\<rparr>"
    by code_simp
  have s: "selectedYear exampleConfirmState = Some 2023"
    "selectedMonth exampleConfirmState = Some 2" "selectedDay exampleConfirmState = Some 28"
    by (simp_all add: exampleConfirmState_def)
  from cycleEvents_per_press [OF a,
      of "[(PressCancel, exampleLeapState), (PressConfirm, exampleConfirmState)]"
         exampleConfirmState 2023 2 28]
  show ?thesis
    using a n s by (simp add: daysInMonth_def legacyYear_def)
qed

section \<open>The selected date in the states of one opening\<close>


















end
